theory Spec2Isabelle
  imports Main "HOL-Library.Word" "HOL-Library.Signed_Division"
begin

section \<open>Data model\<close>

text \<open>
  Go's \<^verbatim>\<open>uint64\<close> is a 64-bit word: \<open>+\<close> wraps around, \<open>unat\<close> reads the value.
  An \<^verbatim>\<open>int64\<close> has the same bits and is read with \<open>sint\<close>.
\<close>

type_synonym u64 = "64 word"
type_synonym byte = "8 word"
type_synonym bytes = "byte list"

text \<open>
  A heap address. Pointers of the source (\<^verbatim>\<open>*big.Int\<close>) are \<open>addr option\<close>, with
  \<open>None\<close> for \<^verbatim>\<open>nil\<close>; a \<^verbatim>\<open>[]byte\<close> is a slice that is \<^verbatim>\<open>nil\<close> or refers to
  a backing array of the heap.
\<close>

type_synonym addr = nat

datatype slice = NilSlice | Slice addr

text \<open>
  \<^verbatim>\<open>ArgListsBatch\<close>. A \<^verbatim>\<open>common.Address\<close> is a value of 20 bytes; the elements of
  \<^verbatim>\<open>Amounts\<close> and \<^verbatim>\<open>Nonces\<close> are pointers to \<^verbatim>\<open>big.Int\<close> objects. The field
  \<^verbatim>\<open>ConvertedTokenBytes\<close> is \<open>TokenBytes\<close> here, the name being taken by the field of
  the deposit.
\<close>

record ArgListsBatch =
  Tokens :: "bytes list"
  Recipients :: "bytes list"
  TokenBytes :: "slice list"
  Amounts :: "addr list"
  Nonces :: "addr list"

text \<open>
  \<^verbatim>\<open>SignedMessage\<close>, the message relayers exchange: the declaration is not among the
  sources, the fields are those the broadcaster reads and the specification lists.
\<close>

record SignedMessage =
  Payload :: bytes
  PublicKeyBytes :: bytes
  Signature :: bytes
  Nonce :: u64

text \<open>
  \<^verbatim>\<open>clients.DepositTransfer\<close> and \<^verbatim>\<open>clients.TransferBatch\<close>: the declarations are not
  among the sources, the fields are the ones the code reads
  (\<^verbatim>\<open>dt.Nonce\<close>, \<^verbatim>\<open>dt.ToBytes\<close>, \<^verbatim>\<open>dt.ConvertedTokenBytes\<close>, \<^verbatim>\<open>dt.Amount\<close>,
  \<^verbatim>\<open>batch.ID\<close>, \<^verbatim>\<open>batch.Deposits\<close>).
\<close>

record DepositTransfer =
  Nonce :: u64
  ToBytes :: slice
  ConvertedTokenBytes :: slice
  Amount :: "addr option"

record TransferBatch =
  ID :: u64
  Deposits :: "DepositTransfer list"
  Statuses :: bytes

text \<open>
  Errors are values. \<open>ErrInvalidDepositNonce dt n\<close> is
  \<^verbatim>\<open>fmt.Errorf("%w for deposit %s, expected: %d", ErrInvalidDepositNonce, dt.String(), n)\<close>;
  \<open>ErrClient\<close> stands for the errors a chain client or the messenger makes up.
\<close>

datatype error =
    ErrNilBatch
  | ErrInvalidDepositNonce DepositTransfer u64
  | ErrPeerNotWhitelisted bytes
  | ErrClient string

text \<open>A run-time panic of the Go program.\<close>

datatype panic = NilPointerDereference | IndexOutOfRange | DivideByZero

section \<open>The bridge executor\<close>

text \<open>
  The two chain clients are interfaces. A client is modelled by the answers it gives:
  one field per method the executor calls. Where the executor tests the error before
  it uses the value, the answer is a sum, \<open>Inl\<close> for a non-nil error; where the
  executor returns the client's \<^verbatim>\<open>(bool, error)\<close> as it is, the answer is that pair.
\<close>

record ElrondClient =
  GetLastExecutedEthTxID :: "error + u64"
  GetActionIDForProposeTransfer :: "TransferBatch \<Rightarrow> error + u64"
  GetActionIDForSetStatusOnPendingTransfer :: "TransferBatch \<Rightarrow> error + u64"
  WasProposedTransfer :: "TransferBatch \<Rightarrow> bool \<times> error option"
  ProposeTransfer :: "TransferBatch \<Rightarrow> error + string"
  WasProposedSetStatus :: "TransferBatch \<Rightarrow> bool \<times> error option"
  ProposeSetStatus :: "TransferBatch \<Rightarrow> error + string"
  PerformAction :: "u64 \<Rightarrow> TransferBatch \<Rightarrow> error + string"
  GetMaxNumberOfRetriesOnQuorumReached :: u64

record EthereumClient =
  GetTransactionsStatuses :: "u64 \<Rightarrow> error + bytes"
  WasExecuted :: "u64 \<Rightarrow> bool \<times> error option"
  GenerateMessageHash :: "TransferBatch \<Rightarrow> error + bytes"
  GetQuorumSize :: "error + int"
  ExecuteTransfer :: "bytes \<Rightarrow> TransferBatch \<Rightarrow> int \<Rightarrow> error + string"
  GetMaxNumberOfRetriesOnQuorumReached :: u64

text \<open>
  The mutable fields of \<^verbatim>\<open>bridgeExecutor\<close>. The logger, the clients and the
  duration are never assigned after construction.
\<close>

record bridgeExecutor =
  batch :: "TransferBatch option"
  actionID :: u64
  msgHash :: bytes
  retriesOnElrond :: u64
  retriesOnEthereum :: u64

text \<open>\<^verbatim>\<open>createBridgeExecutor\<close>: every mutable field has Go's zero value.\<close>

definition createBridgeExecutor :: bridgeExecutor where
  "createBridgeExecutor =
     \<lparr>batch = None, actionID = 0, msgHash = replicate 32 0,
      retriesOnElrond = 0, retriesOnEthereum = 0\<rparr>"

text \<open>
  \<^verbatim>\<open>StoreBatchFromElrond\<close>. Operations return the Go results and the executor after
  the call; \<open>None\<close> is the \<^verbatim>\<open>nil\<close> error.
\<close>

definition StoreBatchFromElrond ::
  "bridgeExecutor \<Rightarrow> TransferBatch option \<Rightarrow> error option \<times> bridgeExecutor" where
  "StoreBatchFromElrond executor b =
     (case b of
        None \<Rightarrow> (Some ErrNilBatch, executor)
      | Some b' \<Rightarrow> (None, executor\<lparr>batch := Some b'\<rparr>))"

text \<open>
  The loop of \<^verbatim>\<open>verifyDepositNonces\<close> over \<^verbatim>\<open>executor.batch.Deposits\<close>, with
  \<^verbatim>\<open>startNonce\<close> as the loop variable.
\<close>

fun verifyDepositNoncesLoop :: "u64 \<Rightarrow> DepositTransfer list \<Rightarrow> error option" where
  "verifyDepositNoncesLoop startNonce [] = None"
| "verifyDepositNoncesLoop startNonce (dt # dts) =
     (if Nonce dt \<noteq> startNonce then Some (ErrInvalidDepositNonce dt startNonce)
      else verifyDepositNoncesLoop (startNonce + 1) dts)"

text \<open>
  \<^verbatim>\<open>verifyDepositNonces\<close> reads the stored batch, which its only caller has checked
  against \<^verbatim>\<open>nil\<close>; the model passes that batch.
\<close>

definition verifyDepositNonces :: "TransferBatch \<Rightarrow> u64 \<Rightarrow> error option" where
  "verifyDepositNonces b lastNonce = verifyDepositNoncesLoop (lastNonce + 1) (Deposits b)"

definition VerifyLastDepositNonceExecutedOnEthereumBatch ::
  "ElrondClient \<Rightarrow> bridgeExecutor \<Rightarrow> error option" where
  "VerifyLastDepositNonceExecutedOnEthereumBatch elrondClient executor =
     (case batch executor of
        None \<Rightarrow> Some ErrNilBatch
      | Some b \<Rightarrow>
          (case GetLastExecutedEthTxID elrondClient of
             Inl err \<Rightarrow> Some err
           | Inr lastNonce \<Rightarrow> verifyDepositNonces b lastNonce))"

text \<open>
  \<^verbatim>\<open>v2.InvalidActionID\<close> is declared outside the sources; it is the parameter
  \<open>InvalidActionID\<close> of the two operations that return it.
\<close>

definition GetAndStoreActionIDForProposeTransferOnElrond ::
  "u64 \<Rightarrow> ElrondClient \<Rightarrow> bridgeExecutor \<Rightarrow> (u64 \<times> error option) \<times> bridgeExecutor" where
  "GetAndStoreActionIDForProposeTransferOnElrond InvalidActionID elrondClient executor =
     (case batch executor of
        None \<Rightarrow> ((InvalidActionID, Some ErrNilBatch), executor)
      | Some b \<Rightarrow>
          (case GetActionIDForProposeTransfer elrondClient b of
             Inl err \<Rightarrow> ((InvalidActionID, Some err), executor)
           | Inr a \<Rightarrow> ((a, None), executor\<lparr>actionID := a\<rparr>)))"

definition GetAndStoreActionIDForProposeSetStatusFromElrond ::
  "u64 \<Rightarrow> ElrondClient \<Rightarrow> bridgeExecutor \<Rightarrow> (u64 \<times> error option) \<times> bridgeExecutor" where
  "GetAndStoreActionIDForProposeSetStatusFromElrond InvalidActionID elrondClient executor =
     (case batch executor of
        None \<Rightarrow> ((InvalidActionID, Some ErrNilBatch), executor)
      | Some b \<Rightarrow>
          (case GetActionIDForSetStatusOnPendingTransfer elrondClient b of
             Inl err \<Rightarrow> ((InvalidActionID, Some err), executor)
           | Inr a \<Rightarrow> ((a, None), executor\<lparr>actionID := a\<rparr>)))"

text \<open>
  The operations below read the state and call a client; none assigns a field, so each
  returns only its Go results. A \<^verbatim>\<open>(bool, error)\<close> result is a pair.
\<close>

definition WasTransferProposedOnElrond ::
  "ElrondClient \<Rightarrow> bridgeExecutor \<Rightarrow> bool \<times> error option" where
  "WasTransferProposedOnElrond elrondClient executor =
     (case batch executor of
        None \<Rightarrow> (False, Some ErrNilBatch)
      | Some b \<Rightarrow> WasProposedTransfer elrondClient b)"

definition ProposeTransferOnElrond :: "ElrondClient \<Rightarrow> bridgeExecutor \<Rightarrow> error option" where
  "ProposeTransferOnElrond elrondClient executor =
     (case batch executor of
        None \<Rightarrow> Some ErrNilBatch
      | Some b \<Rightarrow>
          (case ProposeTransfer elrondClient b of
             Inl err \<Rightarrow> Some err
           | Inr hash \<Rightarrow> None))"

definition WasSetStatusProposedOnElrond ::
  "ElrondClient \<Rightarrow> bridgeExecutor \<Rightarrow> bool \<times> error option" where
  "WasSetStatusProposedOnElrond elrondClient executor =
     (case batch executor of
        None \<Rightarrow> (False, Some ErrNilBatch)
      | Some b \<Rightarrow> WasProposedSetStatus elrondClient b)"

definition ProposeSetStatusOnElrond :: "ElrondClient \<Rightarrow> bridgeExecutor \<Rightarrow> error option" where
  "ProposeSetStatusOnElrond elrondClient executor =
     (case batch executor of
        None \<Rightarrow> Some ErrNilBatch
      | Some b \<Rightarrow>
          (case ProposeSetStatus elrondClient b of
             Inl err \<Rightarrow> Some err
           | Inr hash \<Rightarrow> None))"

definition GetBatchStatusesFromEthereum ::
  "EthereumClient \<Rightarrow> bridgeExecutor \<Rightarrow> bytes option \<times> error option" where
  "GetBatchStatusesFromEthereum ethereumClient executor =
     (case batch executor of
        None \<Rightarrow> (None, Some ErrNilBatch)
      | Some b \<Rightarrow>
          (case GetTransactionsStatuses ethereumClient (ID b) of
             Inl err \<Rightarrow> (None, Some err)
           | Inr statuses \<Rightarrow> (Some statuses, None)))"

definition PerformActionOnElrond :: "ElrondClient \<Rightarrow> bridgeExecutor \<Rightarrow> error option" where
  "PerformActionOnElrond elrondClient executor =
     (case batch executor of
        None \<Rightarrow> Some ErrNilBatch
      | Some b \<Rightarrow>
          (case PerformAction elrondClient (actionID executor) b of
             Inl err \<Rightarrow> Some err
           | Inr hash \<Rightarrow> None))"

definition WasTransferPerformedOnEthereum ::
  "EthereumClient \<Rightarrow> bridgeExecutor \<Rightarrow> bool \<times> error option" where
  "WasTransferPerformedOnEthereum ethereumClient executor =
     (case batch executor of
        None \<Rightarrow> (False, Some ErrNilBatch)
      | Some b \<Rightarrow> WasExecuted ethereumClient (ID b))"

text \<open>
  \<^verbatim>\<open>SignTransferOnEthereum\<close> stores the generated hash, then hands it to
  \<^verbatim>\<open>BroadcastSignatureForMessageHash\<close>, which returns nothing.
\<close>

definition SignTransferOnEthereum ::
  "EthereumClient \<Rightarrow> bridgeExecutor \<Rightarrow> error option \<times> bridgeExecutor" where
  "SignTransferOnEthereum ethereumClient executor =
     (case batch executor of
        None \<Rightarrow> (Some ErrNilBatch, executor)
      | Some b \<Rightarrow>
          (case GenerateMessageHash ethereumClient b of
             Inl err \<Rightarrow> (Some err, executor)
           | Inr hash \<Rightarrow> (None, executor\<lparr>msgHash := hash\<rparr>)))"

text \<open>
  \<^verbatim>\<open>PerformTransferOnEthereum\<close>. The quorum size the client answers with stands for
  \<^verbatim>\<open>int(quorumSize.Int64())\<close>, the number handed to \<^verbatim>\<open>ExecuteTransfer\<close>.
\<close>

definition PerformTransferOnEthereum ::
  "EthereumClient \<Rightarrow> bridgeExecutor \<Rightarrow> error option" where
  "PerformTransferOnEthereum ethereumClient executor =
     (case batch executor of
        None \<Rightarrow> Some ErrNilBatch
      | Some b \<Rightarrow>
          (case GetQuorumSize ethereumClient of
             Inl err \<Rightarrow> Some err
           | Inr quorumSize \<Rightarrow>
               (case ExecuteTransfer ethereumClient (msgHash executor) b quorumSize of
                  Inl err \<Rightarrow> Some err
                | Inr hash \<Rightarrow> None)))"

text \<open>
  \<^verbatim>\<open>ResolveNewDepositsStatuses\<close> calls \<^verbatim>\<open>executor.batch.ResolveNewDeposits(int(numDeposits))\<close>
  with no test of \<^verbatim>\<open>executor.batch\<close> and returns nothing. The method
  \<^verbatim>\<open>ResolveNewDeposits\<close> is declared outside the sources: its effect on a batch is
  the parameter \<open>ResolveNewDeposits\<close>; it adjusts the status vector of its receiver, so
  a \<^verbatim>\<open>nil\<close> receiver is dereferenced. \<^verbatim>\<open>int(numDeposits)\<close> reads the 64 bits as signed.
\<close>

definition ResolveNewDepositsStatuses ::
  "(TransferBatch \<Rightarrow> int \<Rightarrow> TransferBatch) \<Rightarrow> bridgeExecutor \<Rightarrow> u64 \<Rightarrow> panic + bridgeExecutor" where
  "ResolveNewDepositsStatuses ResolveNewDeposits executor numDeposits =
     (case batch executor of
        None \<Rightarrow> Inl NilPointerDereference
      | Some b \<Rightarrow> Inr (executor\<lparr>batch := Some (ResolveNewDeposits b (sint numDeposits))\<rparr>))"

text \<open>The retry counters. The comparison is unsigned.\<close>

definition ProcessMaxRetriesOnElrond ::
  "ElrondClient \<Rightarrow> bridgeExecutor \<Rightarrow> bool \<times> bridgeExecutor" where
  "ProcessMaxRetriesOnElrond elrondClient executor =
     (let maxNumberOfRetries = ElrondClient.GetMaxNumberOfRetriesOnQuorumReached elrondClient in
      if retriesOnElrond executor < maxNumberOfRetries
      then (False, executor\<lparr>retriesOnElrond := retriesOnElrond executor + 1\<rparr>)
      else (True, executor))"

definition ResetRetriesCountOnElrond :: "bridgeExecutor \<Rightarrow> bridgeExecutor" where
  "ResetRetriesCountOnElrond executor = executor\<lparr>retriesOnElrond := 0\<rparr>"

definition ProcessMaxRetriesOnEthereum ::
  "EthereumClient \<Rightarrow> bridgeExecutor \<Rightarrow> bool \<times> bridgeExecutor" where
  "ProcessMaxRetriesOnEthereum ethereumClient executor =
     (let maxNumberOfRetries = EthereumClient.GetMaxNumberOfRetriesOnQuorumReached ethereumClient in
      if retriesOnEthereum executor < maxNumberOfRetries
      then (False, executor\<lparr>retriesOnEthereum := retriesOnEthereum executor + 1\<rparr>)
      else (True, executor))"

definition ResetRetriesCountOnEthereum :: "bridgeExecutor \<Rightarrow> bridgeExecutor" where
  "ResetRetriesCountOnEthereum executor = executor\<lparr>retriesOnEthereum := 0\<rparr>"

text \<open>
  \<open>k\<close> consecutive calls of \<^verbatim>\<open>ProcessMaxRetriesOnElrond\<close> (of
  \<^verbatim>\<open>ProcessMaxRetriesOnEthereum\<close>): the results in call order and the executor after
  the last call.
\<close>

fun callsOnElrond :: "nat \<Rightarrow> ElrondClient \<Rightarrow> bridgeExecutor \<Rightarrow> bool list \<times> bridgeExecutor" where
  "callsOnElrond 0 elrondClient executor = ([], executor)"
| "callsOnElrond (Suc k) elrondClient executor =
     (let (r, executor') = ProcessMaxRetriesOnElrond elrondClient executor;
          (rs, executor'') = callsOnElrond k elrondClient executor'
      in (r # rs, executor''))"

fun callsOnEthereum ::
  "nat \<Rightarrow> EthereumClient \<Rightarrow> bridgeExecutor \<Rightarrow> bool list \<times> bridgeExecutor" where
  "callsOnEthereum 0 ethereumClient executor = ([], executor)"
| "callsOnEthereum (Suc k) ethereumClient executor =
     (let (r, executor') = ProcessMaxRetriesOnEthereum ethereumClient executor;
          (rs, executor'') = callsOnEthereum k ethereumClient executor'
      in (r # rs, executor''))"

section \<open>Example inputs\<close>

text \<open>
  The batch of scenario S1 (identifier 12345, deposit nonces 2 and 3, last executed
  nonce 1), an executor that holds it, and two clients: one that answers, one whose
  calls fail.
\<close>

definition depositWithNonce :: "u64 \<Rightarrow> DepositTransfer" where
  "depositWithNonce n =
     \<lparr>Nonce = n, ToBytes = NilSlice, ConvertedTokenBytes = NilSlice, Amount = None\<rparr>"

definition batchS1 :: TransferBatch where
  "batchS1 = \<lparr>ID = 12345, Deposits = [depositWithNonce 2, depositWithNonce 3], Statuses = []\<rparr>"

definition executorS1 :: bridgeExecutor where
  "executorS1 = createBridgeExecutor\<lparr>batch := Some batchS1, actionID := 7\<rparr>"

definition elrondClientS1 :: ElrondClient where
  "elrondClientS1 =
     \<lparr>GetLastExecutedEthTxID = Inr 1,
      GetActionIDForProposeTransfer = (\<lambda>b. Inr 41),
      GetActionIDForSetStatusOnPendingTransfer = (\<lambda>b. Inr 42),
      WasProposedTransfer = (\<lambda>b. (False, None)),
      ProposeTransfer = (\<lambda>b. Inr ''hash''),
      WasProposedSetStatus = (\<lambda>b. (False, None)),
      ProposeSetStatus = (\<lambda>b. Inr ''hash''),
      PerformAction = (\<lambda>a b. Inr ''hash''),
      GetMaxNumberOfRetriesOnQuorumReached = 2\<rparr>"

definition failingElrondClient :: ElrondClient where
  "failingElrondClient =
     \<lparr>GetLastExecutedEthTxID = Inl (ErrClient ''rpc''),
      GetActionIDForProposeTransfer = (\<lambda>b. Inl (ErrClient ''rpc'')),
      GetActionIDForSetStatusOnPendingTransfer = (\<lambda>b. Inl (ErrClient ''rpc'')),
      WasProposedTransfer = (\<lambda>b. (False, Some (ErrClient ''rpc''))),
      ProposeTransfer = (\<lambda>b. Inl (ErrClient ''rpc'')),
      WasProposedSetStatus = (\<lambda>b. (False, Some (ErrClient ''rpc''))),
      ProposeSetStatus = (\<lambda>b. Inl (ErrClient ''rpc'')),
      PerformAction = (\<lambda>a b. Inl (ErrClient ''rpc'')),
      GetMaxNumberOfRetriesOnQuorumReached = 0\<rparr>"

definition ethereumClientS1 :: EthereumClient where
  "ethereumClientS1 =
     \<lparr>GetTransactionsStatuses = (\<lambda>i. Inr [3, 3]),
      WasExecuted = (\<lambda>i. (False, None)),
      GenerateMessageHash = (\<lambda>b. Inr (replicate 32 1)),
      GetQuorumSize = Inr 3,
      ExecuteTransfer = (\<lambda>h b q. Inr ''hash''),
      GetMaxNumberOfRetriesOnQuorumReached = 2\<rparr>"

section \<open>The wait-for-quorum step\<close>

text \<open>
  Modelled from the spec: the step type \<^verbatim>\<open>waitForQuorumOnTransferStep\<close> and the step
  identifiers are not among the sources; the test of the step is. The step follows
  sections 4.2.1 and 4.2.3 of the specification (it goes to performing the transfer
  when quorum is reached, back to the initial step when the retry budget is exhausted,
  and stays otherwise) and the outcomes the test asserts: a failed quorum call leads to
  the initial step.

  A step works on the executor through its interface. As in the test, the executor is a
  stub: one field per method the step calls, holding the answer of that method. The
  step returns the identifier of the next step together with the calls it made, in
  order.
\<close>

datatype StepIdentifier =
    GettingPendingBatch
  | ProposingTransfer
  | SigningProposedTransfer
  | WaitingForQuorumOnTransfer
  | PerformingTransfer
  | WaitingTransferConfirmation
  | ProposingSetStatusOnElrond
  | SigningProposedSetStatusOnElrond






section \<open>The topology handler\<close>

text \<open>
  Go's \<^verbatim>\<open>/\<close> on \<^verbatim>\<open>int64\<close>: the quotient is truncated towards zero, and the most
  negative value divided by \<open>-1\<close> wraps around. A zero divisor panics; the caller
  tests for it.
\<close>

definition int64_div :: "u64 \<Rightarrow> u64 \<Rightarrow> u64" where
  "int64_div a b = word_of_int (sint a sdiv sint b)"

text \<open>
  Modelled from the spec: \<^verbatim>\<open>hashRandomSelector.randomInt\<close> is not among the sources.
  Section 4.3 gives the index as \<open>hash(seed) mod N\<close>, with \<open>hash\<close> a deterministic
  function of the 64-bit seed; \<open>hash\<close> is a parameter.
\<close>

definition randomInt :: "(u64 \<Rightarrow> u64) \<Rightarrow> u64 \<Rightarrow> u64 \<Rightarrow> u64" where
  "randomInt hash seed maxValue = hash seed mod maxValue"

text \<open>
  The fields of \<^verbatim>\<open>topologyHandler\<close>, with the collaborators replaced by what they
  answer: \<open>SortedPublicKeys\<close> is the list \<^verbatim>\<open>publicKeysProvider.SortedPublicKeys()\<close>
  returns, \<open>NowUnix\<close> the \<^verbatim>\<open>int64\<close> of \<^verbatim>\<open>timer.NowUnix()\<close>, and
  \<open>intervalForLeaderSeconds\<close> the \<^verbatim>\<open>int64\<close> that
  \<^verbatim>\<open>int64(t.intervalForLeader.Seconds())\<close> evaluates to (the conversion from the
  floating-point number of seconds is not modelled).
\<close>

record topologyHandler =
  SortedPublicKeys :: "bytes list"
  NowUnix :: u64
  intervalForLeaderSeconds :: u64
  addressBytes :: bytes

text \<open>\<^verbatim>\<open>seed := uint64(t.timer.NowUnix() / int64(t.intervalForLeader.Seconds()))\<close>\<close>

definition leaderSeed :: "topologyHandler \<Rightarrow> u64" where
  "leaderSeed t = int64_div (NowUnix t) (intervalForLeaderSeconds t)"

text \<open>
  \<^verbatim>\<open>MyTurnAsLeader\<close>. \<^verbatim>\<open>bytes.Equal\<close> is equality of the byte lists. A division
  by zero and an index outside the slice are panics.
\<close>

definition MyTurnAsLeader :: "(u64 \<Rightarrow> u64) \<Rightarrow> topologyHandler \<Rightarrow> panic + bool" where
  "MyTurnAsLeader hash t =
     (let sortedPublicKeys = SortedPublicKeys t in
      if length sortedPublicKeys = 0 then Inr False
      else
        let numberOfPeers = (word_of_nat (length sortedPublicKeys) :: u64) in
        if intervalForLeaderSeconds t = 0 then Inl DivideByZero
        else
          let seed = leaderSeed t;
              index = randomInt hash seed numberOfPeers
          in if unat index < length sortedPublicKeys
             then Inr (sortedPublicKeys ! unat index = addressBytes t)
             else Inl IndexOutOfRange)"

text \<open>
  The seed of the specification: the floor of the quotient of the clock value by the
  interval in seconds, as a 64-bit value (\<open>div\<close> on \<open>int\<close> rounds down).
\<close>

definition floorSeed :: "topologyHandler \<Rightarrow> u64" where
  "floorSeed t = word_of_int (sint (NowUnix t) div sint (intervalForLeaderSeconds t))"

text \<open>
  Two relayers \<open>aaa\<close> and \<open>bbb\<close> as in the tests, a leader window of two seconds, this
  relayer being \<open>aaa\<close>: at the epoch, and one second before it.
\<close>

definition topologyAtEpoch :: topologyHandler where
  "topologyAtEpoch =
     \<lparr>SortedPublicKeys = [[97, 97, 97], [98, 98, 98]], NowUnix = 0,
      intervalForLeaderSeconds = 2, addressBytes = [97, 97, 97]\<rparr>"

definition topologyBeforeEpoch :: topologyHandler where
  "topologyBeforeEpoch = topologyAtEpoch\<lparr>NowUnix := - 1\<rparr>"

section \<open>The broadcaster\<close>

definition joinTopicName :: string where
  "joinTopicName = ''join/1''"

definition signTopicName :: string where
  "signTopicName = ''sign/1''"

text \<open>
  A received \<^verbatim>\<open>p2p.MessageP2P\<close>, by the answers of the methods the broadcaster calls
  on it; a peer identifier is a string.
\<close>

record MessageP2P =
  Data :: bytes
  Topic :: string
  Peer :: string

text \<open>
  What \<^verbatim>\<open>ProcessReceivedMessage\<close> works with, besides the message. The embedded
  \<^verbatim>\<open>signaturesHolder\<close> and \<^verbatim>\<open>relayerMessageHandler\<close> are declared outside the sources:
  the holder is a state of any type \<open>'h\<close> with its three methods as parameters, and
  \<^verbatim>\<open>preProcessMessage\<close> is a parameter that answers with the decoded message or with an
  error. \<^verbatim>\<open>preProcessMessage\<close> is a method of the message handler, which holds the
  marshalizer and the keys and cannot reach the holder. The role provider, the
  marshalizer and the messenger are interfaces, modelled by their answers;
  \<open>IsWhitelisted\<close> takes the public key bytes the address is made of.
\<close>

record 'h BroadcasterDeps =
  preProcessMessage :: "MessageP2P \<Rightarrow> error + SignedMessage"
  IsWhitelisted :: "bytes \<Rightarrow> bool"
  addJoinedMessage :: "'h \<Rightarrow> SignedMessage \<Rightarrow> 'h"
  addSignedMessage :: "'h \<Rightarrow> SignedMessage \<Rightarrow> 'h"
  storedSignedMessages :: "'h \<Rightarrow> SignedMessage list"
  Marshal :: "SignedMessage \<Rightarrow> error + bytes"
  SendToConnectedPeer :: "string \<Rightarrow> bytes \<Rightarrow> string \<Rightarrow> error option"

text \<open>
  A call of \<^verbatim>\<open>messenger.SendToConnectedPeer\<close>: topic, buffer, peer. Functions that
  reach the messenger return the calls they made, in order.
\<close>

type_synonym Sent = "string \<times> bytes \<times> string"

definition sendSignedMessageToPeer ::
  "'h BroadcasterDeps \<Rightarrow> SignedMessage \<Rightarrow> string \<Rightarrow> error option \<times> Sent list" where
  "sendSignedMessageToPeer b msg peerId =
     (case Marshal b msg of
        Inl err \<Rightarrow> (Some err, [])
      | Inr buff \<Rightarrow>
          (SendToConnectedPeer b signTopicName buff peerId, [(signTopicName, buff, peerId)]))"

text \<open>
  The loop of \<^verbatim>\<open>broadcastCurrentSignatures\<close>: an error of one message is logged and
  the loop goes on.
\<close>

fun broadcastLoop :: "'h BroadcasterDeps \<Rightarrow> string \<Rightarrow> SignedMessage list \<Rightarrow> Sent list" where
  "broadcastLoop b peerId [] = []"
| "broadcastLoop b peerId (msg # msgs) =
     snd (sendSignedMessageToPeer b msg peerId) @ broadcastLoop b peerId msgs"

definition broadcastCurrentSignatures ::
  "'h BroadcasterDeps \<Rightarrow> 'h \<Rightarrow> string \<Rightarrow> error option \<times> Sent list" where
  "broadcastCurrentSignatures b holder peerId =
     (let signedMessages = storedSignedMessages b holder
      in (None, broadcastLoop b peerId signedMessages))"

text \<open>
  \<^verbatim>\<open>ProcessReceivedMessage\<close> returns its error, the holder after the call and the
  messages sent. The \<^verbatim>\<open>switch\<close> has no default case: a message of another topic
  changes nothing.
\<close>

definition ProcessReceivedMessage ::
  "'h BroadcasterDeps \<Rightarrow> 'h \<Rightarrow> MessageP2P \<Rightarrow> error option \<times> 'h \<times> Sent list" where
  "ProcessReceivedMessage b holder message =
     (case preProcessMessage b message of
        Inl err \<Rightarrow> (Some err, holder, [])
      | Inr msg \<Rightarrow>
          if \<not> IsWhitelisted b (PublicKeyBytes msg)
          then (Some (ErrPeerNotWhitelisted (PublicKeyBytes msg)), holder, [])
          else if Topic message = joinTopicName then
            (let holder' = addJoinedMessage b holder msg;
                 (err, sent) = broadcastCurrentSignatures b holder' (Peer message)
             in (None, holder', sent))
          else if Topic message = signTopicName then
            (None, addSignedMessage b holder msg, [])
          else (None, holder, []))"

text \<open>
  An example: a holder that keeps the joined and the signed messages in two lists, a
  whitelist of the single key \<open>[1]\<close>, messages whose data is the payload of sender
  \<open>[1]\<close> (empty data does not decode), and a marshalizer that cannot fail.
\<close>

definition exampleMarshal :: "SignedMessage \<Rightarrow> bytes" where
  "exampleMarshal msg = PublicKeyBytes msg @ Payload msg"

definition exampleDeps :: "(SignedMessage list \<times> SignedMessage list) BroadcasterDeps" where
  "exampleDeps =
     \<lparr>preProcessMessage =
        (\<lambda>message. if Data message = [] then Inl (ErrClient ''unmarshal'')
                    else Inr \<lparr>Payload = Data message, PublicKeyBytes = [1], Signature = [],
                             Nonce = 1\<rparr>),
      IsWhitelisted = (\<lambda>pk. pk = [1]),
      addJoinedMessage = (\<lambda>(joined, signed) msg. (joined @ [msg], signed)),
      addSignedMessage = (\<lambda>(joined, signed) msg. (joined, signed @ [msg])),
      storedSignedMessages = (\<lambda>(joined, signed). signed),
      Marshal = (\<lambda>msg. Inr (exampleMarshal msg)),
      SendToConnectedPeer = (\<lambda>topic buff peerId. None)\<rparr>"

definition storedSignature :: "byte \<Rightarrow> SignedMessage" where
  "storedSignature x = \<lparr>Payload = [x], PublicKeyBytes = [2], Signature = [], Nonce = 5\<rparr>"

definition exampleHolder :: "SignedMessage list \<times> SignedMessage list" where
  "exampleHolder = ([], [storedSignature 7, storedSignature 8])"

definition joinMessage :: MessageP2P where
  "joinMessage = \<lparr>Data = [106], Topic = ''join/1'', Peer = ''late peer''\<rparr>"

section \<open>Extracting the argument lists of a batch\<close>

text \<open>
  \<^verbatim>\<open>ExtractList\<close> copies some values and shares others, so it is modelled on a heap:
  the \<^verbatim>\<open>big.Int\<close> objects and the backing arrays of the byte slices, each addressed
  by its index. A new object gets the next free address. A Go program holds no address
  outside its heap.
\<close>

record heap =
  ints :: "int list"
  arrays :: "bytes list"

definition validSlice :: "heap \<Rightarrow> slice \<Rightarrow> bool" where
  "validSlice h s = (case s of NilSlice \<Rightarrow> True | Slice a \<Rightarrow> a < length (arrays h))"

text \<open>The bytes of a slice; a \<^verbatim>\<open>nil\<close> slice has none.\<close>

definition sliceBytes :: "heap \<Rightarrow> slice \<Rightarrow> bytes" where
  "sliceBytes h s =
     (case s of
        NilSlice \<Rightarrow> []
      | Slice a \<Rightarrow> if a < length (arrays h) then arrays h ! a else [])"

text \<open>\<^verbatim>\<open>big.NewInt(0).Set(x)\<close> and \<^verbatim>\<open>big.NewInt(0).SetUint64(n)\<close> make a new object
  holding the value.\<close>

definition newInt :: "heap \<Rightarrow> int \<Rightarrow> addr \<times> heap" where
  "newInt h v = (length (ints h), h\<lparr>ints := ints h @ [v]\<rparr>)"

text \<open>
  \<^verbatim>\<open>common.BytesToAddress\<close> of go-ethereum: a value of 20 bytes, the last 20 bytes of
  a longer input, a shorter input padded with zeros on the left.
\<close>

definition AddressLength :: nat where
  "AddressLength = 20"

definition BytesToAddress :: "bytes \<Rightarrow> bytes" where
  "BytesToAddress b =
     (let b' = (if length b > AddressLength then drop (length b - AddressLength) b else b)
      in replicate (AddressLength - length b') 0 @ b')"

text \<open>
  One iteration per deposit, in the order of the source: recipient, token, amount,
  nonce, converted token bytes. \<^verbatim>\<open>Set\<close> dereferences \<^verbatim>\<open>dt.Amount\<close>. The last
  \<^verbatim>\<open>append\<close> stores the slice \<^verbatim>\<open>dt.ConvertedTokenBytes\<close> itself: the same backing
  array.
\<close>

fun extractLoop ::
  "heap \<Rightarrow> DepositTransfer list \<Rightarrow> ArgListsBatch \<Rightarrow> panic + heap \<times> ArgListsBatch" where
  "extractLoop h [] arg = Inr (h, arg)"
| "extractLoop h (dt # dts) arg =
     (let recipient = BytesToAddress (sliceBytes h (ToBytes dt));
          arg1 = arg\<lparr>Recipients := Recipients arg @ [recipient]\<rparr>;
          token = BytesToAddress (sliceBytes h (ConvertedTokenBytes dt));
          arg2 = arg1\<lparr>Tokens := Tokens arg1 @ [token]\<rparr>
      in case Amount dt of
           None \<Rightarrow> Inl NilPointerDereference
         | Some a \<Rightarrow>
             if \<not> a < length (ints h) then Inl NilPointerDereference
             else
               let (amount, h1) = newInt h (ints h ! a);
                   arg3 = arg2\<lparr>Amounts := Amounts arg2 @ [amount]\<rparr>;
                   (nonce, h2) = newInt h1 (uint (Nonce dt));
                   arg4 = arg3\<lparr>Nonces := Nonces arg3 @ [nonce]\<rparr>;
                   arg5 = arg4\<lparr>TokenBytes := TokenBytes arg4 @ [ConvertedTokenBytes dt]\<rparr>
               in extractLoop h2 dts arg5)"

text \<open>\<^verbatim>\<open>ExtractList\<close> returns the heap after the call, the lists and the nil error. It
  reads \<^verbatim>\<open>batch.Deposits\<close> with no test of \<^verbatim>\<open>batch\<close>.\<close>

definition ExtractList ::
  "heap \<Rightarrow> TransferBatch option \<Rightarrow> panic + heap \<times> ArgListsBatch \<times> error option" where
  "ExtractList h b =
     (case b of
        None \<Rightarrow> Inl NilPointerDereference
      | Some b' \<Rightarrow>
          (case extractLoop h (Deposits b') \<lparr>Tokens = [], Recipients = [], TokenBytes = [],
                                            Amounts = [], Nonces = []\<rparr> of
             Inl p \<Rightarrow> Inl p
           | Inr (h', arg) \<Rightarrow> Inr (h', arg, None)))"

text \<open>
  What a reader of the batch sees in a heap: for each deposit the nonce, the recipient
  bytes, the converted token bytes and the amount.
\<close>

definition depositView :: "heap \<Rightarrow> DepositTransfer \<Rightarrow> u64 \<times> bytes \<times> bytes \<times> int option" where
  "depositView h dt =
     (Nonce dt, sliceBytes h (ToBytes dt), sliceBytes h (ConvertedTokenBytes dt),
      (case Amount dt of
         None \<Rightarrow> None
       | Some a \<Rightarrow> if a < length (ints h) then Some (ints h ! a) else None))"

definition batchView ::
  "heap \<Rightarrow> TransferBatch \<Rightarrow> u64 \<times> (u64 \<times> bytes \<times> bytes \<times> int option) list \<times> bytes" where
  "batchView h b = (ID b, map (depositView h) (Deposits b), Statuses b)"

text \<open>A batch a Go program can hold: every deposit has an amount, and every address
  is in the heap.\<close>

definition validDeposit :: "heap \<Rightarrow> DepositTransfer \<Rightarrow> bool" where
  "validDeposit h dt =
     ((case Amount dt of None \<Rightarrow> False | Some a \<Rightarrow> a < length (ints h))
      \<and> validSlice h (ToBytes dt) \<and> validSlice h (ConvertedTokenBytes dt))"

definition validBatch :: "heap \<Rightarrow> TransferBatch \<Rightarrow> bool" where
  "validBatch h b = list_all (validDeposit h) (Deposits b)"

text \<open>
  Later mutation through the result: \<^verbatim>\<open>x.Set(v)\<close> on a \<^verbatim>\<open>*big.Int\<close>, and
  \<^verbatim>\<open>s[i] = v\<close> on a byte slice, which panics outside the slice.
\<close>

definition setInt :: "heap \<Rightarrow> addr \<Rightarrow> int \<Rightarrow> heap" where
  "setInt h a v = h\<lparr>ints := (ints h)[a := v]\<rparr>"

definition setByte :: "heap \<Rightarrow> slice \<Rightarrow> nat \<Rightarrow> byte \<Rightarrow> panic + heap" where
  "setByte h s i v =
     (case s of
        NilSlice \<Rightarrow> Inl IndexOutOfRange
      | Slice a \<Rightarrow>
          if a < length (arrays h) \<and> i < length (arrays h ! a)
          then Inr (h\<lparr>arrays := (arrays h)[a := (arrays h ! a)[i := v]]\<rparr>)
          else Inl IndexOutOfRange)"

text \<open>A heap with one amount and the bytes of one token, and a batch of one deposit
  that refers to them.\<close>

definition heapS :: heap where
  "heapS = \<lparr>ints = [1000], arrays = [[1, 2, 3], [9]]\<rparr>"

definition batchOnHeap :: TransferBatch where
  "batchOnHeap =
     \<lparr>ID = 12345,
      Deposits = [\<lparr>Nonce = 2, ToBytes = Slice 1, ConvertedTokenBytes = Slice 0,
                   Amount = Some 0\<rparr>],
      Statuses = []\<rparr>"

text \<open>The same heap with a batch of two deposits of the same token; the second has
  no recipient bytes.\<close>

definition batchOfTwo :: TransferBatch where
  "batchOfTwo =
     \<lparr>ID = 12345,
      Deposits = [\<lparr>Nonce = 2, ToBytes = Slice 1, ConvertedTokenBytes = Slice 0,
                   Amount = Some 0\<rparr>,
                  \<lparr>Nonce = 3, ToBytes = NilSlice, ConvertedTokenBytes = Slice 0,
                   Amount = Some 0\<rparr>],
      Statuses = []\<rparr>"

section \<open>The monitor\<close>

text \<open>
  The states of \<^verbatim>\<open>relay/monitor.go\<close>. The states \<^verbatim>\<open>ProposeTransfer\<close> and
  \<^verbatim>\<open>ProposeSetStatus\<close> carry a suffix, their names being those of the bridge's
  methods.
\<close>

datatype State =
    GetPendingTransaction
  | ProposeTransferState
  | WaitForSignatures
  | Execute
  | WaitForTransferProposal
  | WaitForExecute
  | Stop
  | ProposeSetStatusState
  | WaitForSetStatusProposal

text \<open>
  \<^verbatim>\<open>bridge.DepositTransaction\<close> is declared outside the sources; the fields are those
  the monitor reads and assigns. The status bytes \<^verbatim>\<open>bridge.Executed\<close> and
  \<^verbatim>\<open>bridge.Rejected\<close> have the values of section 6 of the specification. A deposit
  nonce and an action identifier are integers.
\<close>

record DepositTransaction =
  DepositNonce :: int
  Status :: byte
  Error :: "error option"

definition Executed :: byte where
  "Executed = 3"


text \<open>
  \<^verbatim>\<open>bridge.Bridge\<close> is an interface: a bridge is modelled by the answers of the
  methods the four states below call. \<^verbatim>\<open>ProposeSetStatus\<close> returns nothing the
  monitor reads.
\<close>

record Bridge =
  ProposeTransfer :: "DepositTransaction \<Rightarrow> error + string"
  WasProposedTransfer :: "int \<Rightarrow> bool"
  GetActionIdForProposeTransfer :: "int \<Rightarrow> int"
  WasProposedSetStatusSuccessOnPendingTransfer :: bool
  GetActionIdForSetStatusOnPendingTransfer :: int
  Sign :: "int \<Rightarrow> error + string"






















section \<open>Deposit nonces\<close>

lemma verifyDepositNoncesLoop_None_iff:
  "verifyDepositNoncesLoop s ds = None \<longleftrightarrow>
     (\<forall>i<length ds. Nonce (ds ! i) = s + word_of_nat i)"
proof (induction ds arbitrary: s)
  case Nil
  then show ?case by simp
next
  case (Cons d ds)
  show ?case
  proof (cases "Nonce d = s")
    case False
    then show ?thesis by auto
  next
    case True
    have "(\<forall>i<length (d # ds). Nonce ((d # ds) ! i) = s + word_of_nat i)
        \<longleftrightarrow> (\<forall>i<length ds. Nonce (ds ! i) = s + 1 + word_of_nat i)"
      using True by (auto simp: nth_Cons add.assoc split: nat.splits)
    then show ?thesis using True Cons.IH [of "s + 1"] by simp
  qed
qed

lemma verifyDepositNoncesLoop_Some:
  "verifyDepositNoncesLoop s ds = Some err \<Longrightarrow>
     \<exists>k<length ds. (\<forall>j<k. Nonce (ds ! j) = s + word_of_nat j)
        \<and> Nonce (ds ! k) \<noteq> s + word_of_nat k
        \<and> err = ErrInvalidDepositNonce (ds ! k) (s + word_of_nat k)"
proof (induction ds arbitrary: s)
  case Nil
  then show ?case by simp
next
  case (Cons d ds)
  show ?case
  proof (cases "Nonce d = s")
    case False
    with Cons.prems have "err = ErrInvalidDepositNonce d s" by simp
    with False show ?thesis by (intro exI [of _ 0]) simp
  next
    case True
    with Cons.prems have "verifyDepositNoncesLoop (s + 1) ds = Some err" by simp
    from Cons.IH [OF this] obtain k where k: "k < length ds"
      "\<forall>j<k. Nonce (ds ! j) = s + 1 + word_of_nat j"
      "Nonce (ds ! k) \<noteq> s + 1 + word_of_nat k"
      "err = ErrInvalidDepositNonce (ds ! k) (s + 1 + word_of_nat k)" by blast
    have "\<forall>j<Suc k. Nonce ((d # ds) ! j) = s + word_of_nat j"
      using True k(2) by (auto simp: nth_Cons add.assoc split: nat.splits)
    with k show ?thesis
      by (intro exI [of _ "Suc k"]) (simp add: add.assoc)
  qed
qed

text \<open>A run of words counts up from \<open>s\<close> exactly when it starts at \<open>s\<close> and each
  element is its predecessor plus one.\<close>

lemma counting_up_iff:
  fixes f :: "nat \<Rightarrow> u64"
  shows "(\<forall>i<n. f i = s + word_of_nat i) \<longleftrightarrow>
         ((0 < n \<longrightarrow> f 0 = s) \<and> (\<forall>i. Suc i < n \<longrightarrow> f (Suc i) = f i + 1))"
proof
  assume a: "\<forall>i<n. f i = s + word_of_nat i"
  show "(0 < n \<longrightarrow> f 0 = s) \<and> (\<forall>i. Suc i < n \<longrightarrow> f (Suc i) = f i + 1)"
  proof (intro conjI allI impI)
    assume "0 < n" with a show "f 0 = s" by force
  next
    fix i assume "Suc i < n"
    with a have "f (Suc i) = s + word_of_nat (Suc i)" "f i = s + word_of_nat i" by auto
    then show "f (Suc i) = f i + 1" by (simp add: add.assoc)
  qed
next
  assume b: "(0 < n \<longrightarrow> f 0 = s) \<and> (\<forall>i. Suc i < n \<longrightarrow> f (Suc i) = f i + 1)"
  show "\<forall>i<n. f i = s + word_of_nat i"
  proof (intro allI impI)
    fix i show "i < n \<Longrightarrow> f i = s + word_of_nat i"
    proof (induction i)
      case 0
      with b show ?case by simp
    next
      case (Suc i)
      with b have "f (Suc i) = f i + 1" "f i = s + word_of_nat i" by auto
      then show ?case by (simp add: add.assoc)
    qed
  qed
qed

text \<open>Without wrap-around the words count up as numbers do.\<close>

lemma unat_counting_up:
  fixes L :: u64
  assumes "unat L + n < 2 ^ 64" and "i < n"
  shows "unat (L + 1 + word_of_nat i) = unat L + 1 + i"
proof -
  have "unat (L + 1 + word_of_nat i) = (unat L + 1 + i) mod 2 ^ 64"
    by (simp add: unat_word_ariths unat_of_nat mod_simps)
  moreover have "unat L + 1 + i < 2 ^ 64" using assms by simp
  ultimately show ?thesis by simp
qed

lemma counting_up_numbers:
  fixes L :: u64
  assumes "unat L + length ds < 2 ^ 64"
  shows "(\<forall>i<length ds. Nonce (ds ! i) = L + 1 + word_of_nat i) =
         (map (\<lambda>d. unat (Nonce d)) ds = map (\<lambda>i. unat L + 1 + i) [0..<length ds])"
proof -
  have "(Nonce (ds ! i) = L + 1 + word_of_nat i) = (unat (Nonce (ds ! i)) = unat L + 1 + i)"
    if "i < length ds" for i
    using unat_counting_up [OF assms that] by (metis word_unat_eq_iff)
  then have "(\<forall>i<length ds. Nonce (ds ! i) = L + 1 + word_of_nat i) =
      (\<forall>i<length ds. unat (Nonce (ds ! i)) = unat L + 1 + i)"
    by blast
  also have "\<dots> = (map (\<lambda>d. unat (Nonce d)) ds = map (\<lambda>i. unat L + 1 + i) [0..<length ds])"
    by (subst list_eq_iff_nth_eq) simp
  finally show ?thesis .
qed

text \<open>
  Claim C1. With a batch stored and \<open>L\<close> the last executed nonce the Elrond client
  returns, \<^verbatim>\<open>VerifyLastDepositNonceExecutedOnEthereumBatch\<close> returns the nil error
  exactly when the deposit nonces are \<open>L + 1, L + 2, \<dots>\<close> in order; equivalently,
  when the first nonce is \<open>L + 1\<close> and every deposit's nonce is its predecessor's plus
  one. Otherwise it returns the invalid-deposit-nonce error for the first deposit that
  deviates, with the nonce that was expected there. The sums are those of the code:
  additions of \<^verbatim>\<open>uint64\<close>. As long as \<open>L\<close> plus the number of deposits stays below
  \<open>2\<^sup>6\<^sup>4\<close> they are the sums of the numbers.
\<close>

theorem VerifyLastDepositNonceExecutedOnEthereumBatch_contiguous:
  assumes "batch executor = Some b"
    and "GetLastExecutedEthTxID elrondClient = Inr L"
  shows "((VerifyLastDepositNonceExecutedOnEthereumBatch elrondClient executor = None) =
            (map Nonce (Deposits b) =
               map (\<lambda>i. L + 1 + word_of_nat i) [0..<length (Deposits b)]))
       \<and> ((VerifyLastDepositNonceExecutedOnEthereumBatch elrondClient executor = None) =
            ((Deposits b \<noteq> [] \<longrightarrow> Nonce (Deposits b ! 0) = L + 1) \<and>
             (\<forall>i. Suc i < length (Deposits b) \<longrightarrow>
                  Nonce (Deposits b ! Suc i) = Nonce (Deposits b ! i) + 1)))
       \<and> (VerifyLastDepositNonceExecutedOnEthereumBatch elrondClient executor \<noteq> None \<longrightarrow>
            (\<exists>k<length (Deposits b).
               (\<forall>j<k. Nonce (Deposits b ! j) = L + 1 + word_of_nat j) \<and>
               Nonce (Deposits b ! k) \<noteq> L + 1 + word_of_nat k \<and>
               VerifyLastDepositNonceExecutedOnEthereumBatch elrondClient executor =
                 Some (ErrInvalidDepositNonce (Deposits b ! k) (L + 1 + word_of_nat k))))
       \<and> (unat L + length (Deposits b) < 2 ^ 64 \<longrightarrow>
            (VerifyLastDepositNonceExecutedOnEthereumBatch elrondClient executor = None) =
            (map (\<lambda>d. unat (Nonce d)) (Deposits b) =
               map (\<lambda>i. unat L + 1 + i) [0..<length (Deposits b)]))"
proof -
  let ?ds = "Deposits b"
  have run: "VerifyLastDepositNonceExecutedOnEthereumBatch elrondClient executor =
      verifyDepositNoncesLoop (L + 1) ?ds"
    using assms
    by (simp add: VerifyLastDepositNonceExecutedOnEthereumBatch_def verifyDepositNonces_def)
  have pointwise: "(verifyDepositNoncesLoop (L + 1) ?ds = None) =
      (\<forall>i<length ?ds. Nonce (?ds ! i) = L + 1 + word_of_nat i)"
    by (fact verifyDepositNoncesLoop_None_iff [of "L + 1" "Deposits b"])
  have as_list: "(\<forall>i<length ?ds. Nonce (?ds ! i) = L + 1 + word_of_nat i) =
      (map Nonce ?ds = map (\<lambda>i. L + 1 + word_of_nat i) [0..<length ?ds])"
    by (subst list_eq_iff_nth_eq) simp
  have as_steps: "(\<forall>i<length ?ds. Nonce (?ds ! i) = L + 1 + word_of_nat i) =
      ((?ds \<noteq> [] \<longrightarrow> Nonce (?ds ! 0) = L + 1) \<and>
       (\<forall>i. Suc i < length ?ds \<longrightarrow> Nonce (?ds ! Suc i) = Nonce (?ds ! i) + 1))"
    using counting_up_iff [of "length ?ds" "\<lambda>i. Nonce (?ds ! i)" "L + 1"] by simp
  have failure: "verifyDepositNoncesLoop (L + 1) ?ds \<noteq> None \<longrightarrow>
      (\<exists>k<length ?ds.
         (\<forall>j<k. Nonce (?ds ! j) = L + 1 + word_of_nat j) \<and>
         Nonce (?ds ! k) \<noteq> L + 1 + word_of_nat k \<and>
         verifyDepositNoncesLoop (L + 1) ?ds =
           Some (ErrInvalidDepositNonce (?ds ! k) (L + 1 + word_of_nat k)))"
    using verifyDepositNoncesLoop_Some [of "L + 1" ?ds]
    by (cases "verifyDepositNoncesLoop (L + 1) ?ds") auto
  have numbers: "unat L + length ?ds < 2 ^ 64 \<longrightarrow>
      (\<forall>i<length ?ds. Nonce (?ds ! i) = L + 1 + word_of_nat i) =
      (map (\<lambda>d. unat (Nonce d)) ?ds = map (\<lambda>i. unat L + 1 + i) [0..<length ?ds])"
    using counting_up_numbers [of L ?ds] by blast
  show ?thesis
    unfolding run using pointwise as_list as_steps failure numbers by simp
qed

theorem VerifyLastDepositNonceExecutedOnEthereumBatch_contiguous_witness:
  "batch executorS1 = Some batchS1
   \<and> GetLastExecutedEthTxID elrondClientS1 = Inr 1
   \<and> map Nonce (Deposits batchS1) = [2, 3]
   \<and> VerifyLastDepositNonceExecutedOnEthereumBatch elrondClientS1 executorS1 = None"
proof -
  have stored: "batch executorS1 = Some batchS1"
    by (simp add: executorS1_def)
  have last: "GetLastExecutedEthTxID elrondClientS1 = Inr 1"
    by (simp add: elrondClientS1_def)
  have nonces: "map Nonce (Deposits batchS1) = [2, 3]"
    by (simp add: batchS1_def depositWithNonce_def)
  have "map (\<lambda>i. (1::u64) + 1 + word_of_nat i) [0..<length (Deposits batchS1)] = [2, 3]"
    by (simp add: batchS1_def upt_rec)
  with nonces
    VerifyLastDepositNonceExecutedOnEthereumBatch_contiguous [OF stored last]
  have "VerifyLastDepositNonceExecutedOnEthereumBatch elrondClientS1 executorS1 = None"
    by simp
  with stored last nonces show ?thesis by simp
qed

section \<open>Retry counters\<close>

lemma retries_increment_no_wrap:
  fixes c m :: u64
  assumes "c < m"
  shows "unat (c + 1) = Suc (unat c)"
proof -
  from assms have "unat c < unat m" by (simp add: word_less_nat_alt)
  moreover have "unat m < 2 ^ 64" using unsigned_less [of m] by simp
  ultimately show ?thesis by (simp add: unat_word_ariths)
qed

lemma results_shift:
  "map (\<lambda>j. (m::nat) \<le> c + j) [0..<Suc k] = (m \<le> c) # map (\<lambda>j. m \<le> Suc c + j) [0..<k]"
  by (simp add: upt_conv_Cons map_Suc_upt [symmetric] del: upt_Suc)

lemma callsOnElrond_run:
  "unat (retriesOnElrond executor) \<le> unat (ElrondClient.GetMaxNumberOfRetriesOnQuorumReached elrondClient) \<Longrightarrow>
   callsOnElrond k elrondClient executor =
     (map (\<lambda>j. unat (ElrondClient.GetMaxNumberOfRetriesOnQuorumReached elrondClient)
                  \<le> unat (retriesOnElrond executor) + j) [0..<k],
      executor\<lparr>retriesOnElrond :=
        word_of_nat (min (unat (retriesOnElrond executor) + k)
                         (unat (ElrondClient.GetMaxNumberOfRetriesOnQuorumReached elrondClient)))\<rparr>)"
proof (induction k arbitrary: executor)
  case 0
  then show ?case by (simp add: min_def)
next
  case (Suc k)
  let ?m = "ElrondClient.GetMaxNumberOfRetriesOnQuorumReached elrondClient"
  let ?c = "retriesOnElrond executor"
  show ?case
  proof (cases "?c < ?m")
    case True
    then have lt: "unat ?c < unat ?m" by (simp add: word_less_nat_alt)
    have inc: "unat (?c + 1) = Suc (unat ?c)"
      using True by (rule retries_increment_no_wrap)
    have step: "ProcessMaxRetriesOnElrond elrondClient executor =
        (False, executor\<lparr>retriesOnElrond := ?c + 1\<rparr>)"
      using True by (simp add: ProcessMaxRetriesOnElrond_def)
    have ih: "callsOnElrond k elrondClient (executor\<lparr>retriesOnElrond := ?c + 1\<rparr>) =
        (map (\<lambda>j. unat ?m \<le> Suc (unat ?c) + j) [0..<k],
         executor\<lparr>retriesOnElrond := word_of_nat (min (Suc (unat ?c) + k) (unat ?m))\<rparr>)"
      using Suc.IH [of "executor\<lparr>retriesOnElrond := ?c + 1\<rparr>"] lt inc by simp
    show ?thesis using step ih lt results_shift [of "unat ?m" "unat ?c" k] by simp
  next
    case False
    then have eq: "unat ?c = unat ?m" using Suc.prems by (simp add: word_less_nat_alt)
    have step: "ProcessMaxRetriesOnElrond elrondClient executor = (True, executor)"
      using False by (simp add: ProcessMaxRetriesOnElrond_def)
    have "callsOnElrond k elrondClient executor =
        (map (\<lambda>j. unat ?m \<le> unat ?c + j) [0..<k],
         executor\<lparr>retriesOnElrond := word_of_nat (min (unat ?c + k) (unat ?m))\<rparr>)"
      using Suc.IH [OF Suc.prems] .
    then show ?thesis using step eq results_shift [of "unat ?m" "unat ?c" k] by (simp add: min_def)
  qed
qed

lemma callsOnEthereum_run:
  "unat (retriesOnEthereum executor) \<le> unat (EthereumClient.GetMaxNumberOfRetriesOnQuorumReached ethereumClient) \<Longrightarrow>
   callsOnEthereum k ethereumClient executor =
     (map (\<lambda>j. unat (EthereumClient.GetMaxNumberOfRetriesOnQuorumReached ethereumClient)
                  \<le> unat (retriesOnEthereum executor) + j) [0..<k],
      executor\<lparr>retriesOnEthereum :=
        word_of_nat (min (unat (retriesOnEthereum executor) + k)
                         (unat (EthereumClient.GetMaxNumberOfRetriesOnQuorumReached ethereumClient)))\<rparr>)"
proof (induction k arbitrary: executor)
  case 0
  then show ?case by (simp add: min_def)
next
  case (Suc k)
  let ?m = "EthereumClient.GetMaxNumberOfRetriesOnQuorumReached ethereumClient"
  let ?c = "retriesOnEthereum executor"
  show ?case
  proof (cases "?c < ?m")
    case True
    then have lt: "unat ?c < unat ?m" by (simp add: word_less_nat_alt)
    have inc: "unat (?c + 1) = Suc (unat ?c)"
      using True by (rule retries_increment_no_wrap)
    have step: "ProcessMaxRetriesOnEthereum ethereumClient executor =
        (False, executor\<lparr>retriesOnEthereum := ?c + 1\<rparr>)"
      using True by (simp add: ProcessMaxRetriesOnEthereum_def)
    have ih: "callsOnEthereum k ethereumClient (executor\<lparr>retriesOnEthereum := ?c + 1\<rparr>) =
        (map (\<lambda>j. unat ?m \<le> Suc (unat ?c) + j) [0..<k],
         executor\<lparr>retriesOnEthereum := word_of_nat (min (Suc (unat ?c) + k) (unat ?m))\<rparr>)"
      using Suc.IH [of "executor\<lparr>retriesOnEthereum := ?c + 1\<rparr>"] lt inc by simp
    show ?thesis using step ih lt results_shift [of "unat ?m" "unat ?c" k] by simp
  next
    case False
    then have eq: "unat ?c = unat ?m" using Suc.prems by (simp add: word_less_nat_alt)
    have step: "ProcessMaxRetriesOnEthereum ethereumClient executor = (True, executor)"
      using False by (simp add: ProcessMaxRetriesOnEthereum_def)
    have "callsOnEthereum k ethereumClient executor =
        (map (\<lambda>j. unat ?m \<le> unat ?c + j) [0..<k],
         executor\<lparr>retriesOnEthereum := word_of_nat (min (unat ?c + k) (unat ?m))\<rparr>)"
      using Suc.IH [OF Suc.prems] .
    then show ?thesis using step eq results_shift [of "unat ?m" "unat ?c" k] by (simp add: min_def)
  qed
qed

text \<open>
  Claim C7. With \<open>m\<close> the maximum the client returns: a call of
  \<^verbatim>\<open>ProcessMaxRetriesOnElrond\<close> made while the counter is below \<open>m\<close> returns false
  and adds exactly one to the counter (no wrap-around), a call made once the counter
  has reached \<open>m\<close> returns true and changes nothing, and \<^verbatim>\<open>ResetRetriesCountOnElrond\<close>
  sets the counter to 0. So among the calls that follow a reset, the first \<open>m\<close> return
  false and every later one returns true, and the counter after \<open>k\<close> calls is
  \<open>min k m\<close>. With \<open>m = 0\<close> the first call after a reset already returns true: the
  step that made it is not tried again. The same holds for the Ethereum counter.
\<close>

theorem ProcessMaxRetries_budget:
  "(retriesOnElrond executor < ElrondClient.GetMaxNumberOfRetriesOnQuorumReached elrondClient \<longrightarrow>
      ProcessMaxRetriesOnElrond elrondClient executor =
        (False, executor\<lparr>retriesOnElrond := retriesOnElrond executor + 1\<rparr>) \<and>
      unat (retriesOnElrond executor + 1) = unat (retriesOnElrond executor) + 1)
   \<and> (ElrondClient.GetMaxNumberOfRetriesOnQuorumReached elrondClient \<le> retriesOnElrond executor \<longrightarrow>
      ProcessMaxRetriesOnElrond elrondClient executor = (True, executor))
   \<and> ResetRetriesCountOnElrond executor = executor\<lparr>retriesOnElrond := 0\<rparr>
   \<and> callsOnElrond k elrondClient (ResetRetriesCountOnElrond executor) =
       (map (\<lambda>j. unat (ElrondClient.GetMaxNumberOfRetriesOnQuorumReached elrondClient) \<le> j) [0..<k],
        executor\<lparr>retriesOnElrond :=
          word_of_nat (min k (unat (ElrondClient.GetMaxNumberOfRetriesOnQuorumReached elrondClient)))\<rparr>)
   \<and> (ElrondClient.GetMaxNumberOfRetriesOnQuorumReached elrondClient = 0 \<longrightarrow>
        ProcessMaxRetriesOnElrond elrondClient (ResetRetriesCountOnElrond executor) =
          (True, ResetRetriesCountOnElrond executor))
   \<and> (retriesOnEthereum executor < EthereumClient.GetMaxNumberOfRetriesOnQuorumReached ethereumClient \<longrightarrow>
      ProcessMaxRetriesOnEthereum ethereumClient executor =
        (False, executor\<lparr>retriesOnEthereum := retriesOnEthereum executor + 1\<rparr>) \<and>
      unat (retriesOnEthereum executor + 1) = unat (retriesOnEthereum executor) + 1)
   \<and> (EthereumClient.GetMaxNumberOfRetriesOnQuorumReached ethereumClient \<le> retriesOnEthereum executor \<longrightarrow>
      ProcessMaxRetriesOnEthereum ethereumClient executor = (True, executor))
   \<and> ResetRetriesCountOnEthereum executor = executor\<lparr>retriesOnEthereum := 0\<rparr>
   \<and> callsOnEthereum k ethereumClient (ResetRetriesCountOnEthereum executor) =
       (map (\<lambda>j. unat (EthereumClient.GetMaxNumberOfRetriesOnQuorumReached ethereumClient) \<le> j) [0..<k],
        executor\<lparr>retriesOnEthereum :=
          word_of_nat (min k (unat (EthereumClient.GetMaxNumberOfRetriesOnQuorumReached ethereumClient)))\<rparr>)
   \<and> (EthereumClient.GetMaxNumberOfRetriesOnQuorumReached ethereumClient = 0 \<longrightarrow>
        ProcessMaxRetriesOnEthereum ethereumClient (ResetRetriesCountOnEthereum executor) =
          (True, ResetRetriesCountOnEthereum executor))"
proof -
  have e1: "retriesOnElrond executor < ElrondClient.GetMaxNumberOfRetriesOnQuorumReached elrondClient \<longrightarrow>
      ProcessMaxRetriesOnElrond elrondClient executor =
        (False, executor\<lparr>retriesOnElrond := retriesOnElrond executor + 1\<rparr>) \<and>
      unat (retriesOnElrond executor + 1) = unat (retriesOnElrond executor) + 1"
    using retries_increment_no_wrap [of "retriesOnElrond executor"]
    by (simp add: ProcessMaxRetriesOnElrond_def)
  have e2: "ElrondClient.GetMaxNumberOfRetriesOnQuorumReached elrondClient \<le> retriesOnElrond executor \<longrightarrow>
      ProcessMaxRetriesOnElrond elrondClient executor = (True, executor)"
    by (simp add: ProcessMaxRetriesOnElrond_def not_less [symmetric])
  have e3: "ResetRetriesCountOnElrond executor = executor\<lparr>retriesOnElrond := 0\<rparr>"
    by (simp add: ResetRetriesCountOnElrond_def)
  have e4: "callsOnElrond k elrondClient (ResetRetriesCountOnElrond executor) =
       (map (\<lambda>j. unat (ElrondClient.GetMaxNumberOfRetriesOnQuorumReached elrondClient) \<le> j) [0..<k],
        executor\<lparr>retriesOnElrond :=
          word_of_nat (min k (unat (ElrondClient.GetMaxNumberOfRetriesOnQuorumReached elrondClient)))\<rparr>)"
    using callsOnElrond_run [of "executor\<lparr>retriesOnElrond := 0\<rparr>" elrondClient k]
    by (simp add: ResetRetriesCountOnElrond_def)
  have e5: "ElrondClient.GetMaxNumberOfRetriesOnQuorumReached elrondClient = 0 \<longrightarrow>
        ProcessMaxRetriesOnElrond elrondClient (ResetRetriesCountOnElrond executor) =
          (True, ResetRetriesCountOnElrond executor)"
    by (simp add: ProcessMaxRetriesOnElrond_def ResetRetriesCountOnElrond_def)
  have t1: "retriesOnEthereum executor < EthereumClient.GetMaxNumberOfRetriesOnQuorumReached ethereumClient \<longrightarrow>
      ProcessMaxRetriesOnEthereum ethereumClient executor =
        (False, executor\<lparr>retriesOnEthereum := retriesOnEthereum executor + 1\<rparr>) \<and>
      unat (retriesOnEthereum executor + 1) = unat (retriesOnEthereum executor) + 1"
    using retries_increment_no_wrap [of "retriesOnEthereum executor"]
    by (simp add: ProcessMaxRetriesOnEthereum_def)
  have t2: "EthereumClient.GetMaxNumberOfRetriesOnQuorumReached ethereumClient \<le> retriesOnEthereum executor \<longrightarrow>
      ProcessMaxRetriesOnEthereum ethereumClient executor = (True, executor)"
    by (simp add: ProcessMaxRetriesOnEthereum_def not_less [symmetric])
  have t3: "ResetRetriesCountOnEthereum executor = executor\<lparr>retriesOnEthereum := 0\<rparr>"
    by (simp add: ResetRetriesCountOnEthereum_def)
  have t4: "callsOnEthereum k ethereumClient (ResetRetriesCountOnEthereum executor) =
       (map (\<lambda>j. unat (EthereumClient.GetMaxNumberOfRetriesOnQuorumReached ethereumClient) \<le> j) [0..<k],
        executor\<lparr>retriesOnEthereum :=
          word_of_nat (min k (unat (EthereumClient.GetMaxNumberOfRetriesOnQuorumReached ethereumClient)))\<rparr>)"
    using callsOnEthereum_run [of "executor\<lparr>retriesOnEthereum := 0\<rparr>" ethereumClient k]
    by (simp add: ResetRetriesCountOnEthereum_def)
  have t5: "EthereumClient.GetMaxNumberOfRetriesOnQuorumReached ethereumClient = 0 \<longrightarrow>
        ProcessMaxRetriesOnEthereum ethereumClient (ResetRetriesCountOnEthereum executor) =
          (True, ResetRetriesCountOnEthereum executor)"
    by (simp add: ProcessMaxRetriesOnEthereum_def ResetRetriesCountOnEthereum_def)
  from e1 e2 e3 e4 e5 t1 t2 t3 t4 t5 show ?thesis by blast
qed

theorem ProcessMaxRetries_budget_witness:
  "callsOnElrond 4 elrondClientS1 (ResetRetriesCountOnElrond executorS1) =
     ([False, False, True, True], executorS1\<lparr>retriesOnElrond := 2\<rparr>)
   \<and> callsOnEthereum 4 ethereumClientS1 (ResetRetriesCountOnEthereum executorS1) =
     ([False, False, True, True], executorS1\<lparr>retriesOnEthereum := 2\<rparr>)
   \<and> ElrondClient.GetMaxNumberOfRetriesOnQuorumReached failingElrondClient = 0
   \<and> ProcessMaxRetriesOnElrond failingElrondClient (ResetRetriesCountOnElrond executorS1) =
        (True, ResetRetriesCountOnElrond executorS1)"
proof -
  note answering = ProcessMaxRetries_budget [of executorS1 elrondClientS1 4 ethereumClientS1]
  note failing = ProcessMaxRetries_budget [of executorS1 failingElrondClient 4 ethereumClientS1]
  have m1: "ElrondClient.GetMaxNumberOfRetriesOnQuorumReached elrondClientS1 = 2"
    by (simp add: elrondClientS1_def)
  have m2: "EthereumClient.GetMaxNumberOfRetriesOnQuorumReached ethereumClientS1 = 2"
    by (simp add: ethereumClientS1_def)
  have m0: "ElrondClient.GetMaxNumberOfRetriesOnQuorumReached failingElrondClient = 0"
    by (simp add: failingElrondClient_def)
  have results: "map (\<lambda>j. (2::nat) \<le> j) [0..<4] = [False, False, True, True]"
    by (simp add: upt_rec)
  from answering have "callsOnElrond 4 elrondClientS1 (ResetRetriesCountOnElrond executorS1) =
      (map (\<lambda>j. unat (ElrondClient.GetMaxNumberOfRetriesOnQuorumReached elrondClientS1) \<le> j) [0..<4],
       executorS1\<lparr>retriesOnElrond :=
         word_of_nat (min 4 (unat (ElrondClient.GetMaxNumberOfRetriesOnQuorumReached elrondClientS1)))\<rparr>)"
    by blast
  then have w1: "callsOnElrond 4 elrondClientS1 (ResetRetriesCountOnElrond executorS1) =
      ([False, False, True, True], executorS1\<lparr>retriesOnElrond := 2\<rparr>)"
    unfolding m1 using results by simp
  from answering have "callsOnEthereum 4 ethereumClientS1 (ResetRetriesCountOnEthereum executorS1) =
      (map (\<lambda>j. unat (EthereumClient.GetMaxNumberOfRetriesOnQuorumReached ethereumClientS1) \<le> j) [0..<4],
       executorS1\<lparr>retriesOnEthereum :=
         word_of_nat (min 4 (unat (EthereumClient.GetMaxNumberOfRetriesOnQuorumReached ethereumClientS1)))\<rparr>)"
    by blast
  then have w2: "callsOnEthereum 4 ethereumClientS1 (ResetRetriesCountOnEthereum executorS1) =
      ([False, False, True, True], executorS1\<lparr>retriesOnEthereum := 2\<rparr>)"
    unfolding m2 using results by simp
  from failing m0 have w3:
    "ProcessMaxRetriesOnElrond failingElrondClient (ResetRetriesCountOnElrond executorS1) =
       (True, ResetRetriesCountOnElrond executorS1)"
    by blast
  from w1 w2 m0 w3 show ?thesis by blast
qed

section \<open>Action identifiers\<close>

text \<open>
  Claim C9. When the client call inside
  \<^verbatim>\<open>GetAndStoreActionIDForProposeTransferOnElrond\<close> or
  \<^verbatim>\<open>GetAndStoreActionIDForProposeSetStatusFromElrond\<close> returns an error, the operation
  returns the invalid action identifier with that error and the executor is exactly as
  before. When the call returns an identifier, the operation returns it and stores it.
  The executor changes only if the client call succeeded, and the stored batch, the
  message hash and the retry counters are never touched.
\<close>

theorem GetAndStoreActionID_error_keeps_state:
  "(batch executor = Some b \<and> GetActionIDForProposeTransfer elrondClient b = Inl err \<longrightarrow>
      GetAndStoreActionIDForProposeTransferOnElrond InvalidActionID elrondClient executor =
        ((InvalidActionID, Some err), executor))
   \<and> (batch executor = Some b \<and> GetActionIDForSetStatusOnPendingTransfer elrondClient b = Inl err \<longrightarrow>
      GetAndStoreActionIDForProposeSetStatusFromElrond InvalidActionID elrondClient executor =
        ((InvalidActionID, Some err), executor))
   \<and> (batch executor = Some b \<and> GetActionIDForProposeTransfer elrondClient b = Inr a \<longrightarrow>
      GetAndStoreActionIDForProposeTransferOnElrond InvalidActionID elrondClient executor =
        ((a, None), executor\<lparr>actionID := a\<rparr>))
   \<and> (batch executor = Some b \<and> GetActionIDForSetStatusOnPendingTransfer elrondClient b = Inr a \<longrightarrow>
      GetAndStoreActionIDForProposeSetStatusFromElrond InvalidActionID elrondClient executor =
        ((a, None), executor\<lparr>actionID := a\<rparr>))
   \<and> (snd (GetAndStoreActionIDForProposeTransferOnElrond InvalidActionID elrondClient executor)
         \<noteq> executor \<longrightarrow>
       (\<exists>b' a'. batch executor = Some b' \<and> GetActionIDForProposeTransfer elrondClient b' = Inr a'))
   \<and> (snd (GetAndStoreActionIDForProposeSetStatusFromElrond InvalidActionID elrondClient executor)
         \<noteq> executor \<longrightarrow>
       (\<exists>b' a'. batch executor = Some b' \<and>
          GetActionIDForSetStatusOnPendingTransfer elrondClient b' = Inr a'))
   \<and> snd (GetAndStoreActionIDForProposeTransferOnElrond InvalidActionID elrondClient executor)
       \<lparr>actionID := actionID executor\<rparr> = executor
   \<and> snd (GetAndStoreActionIDForProposeSetStatusFromElrond InvalidActionID elrondClient executor)
       \<lparr>actionID := actionID executor\<rparr> = executor"
  by (auto simp: GetAndStoreActionIDForProposeTransferOnElrond_def
      GetAndStoreActionIDForProposeSetStatusFromElrond_def
      split: option.splits sum.splits)

theorem GetAndStoreActionID_error_keeps_state_witness:
  "batch executorS1 = Some batchS1
   \<and> GetActionIDForProposeTransfer failingElrondClient batchS1 = Inl (ErrClient ''rpc'')
   \<and> GetAndStoreActionIDForProposeTransferOnElrond 0 failingElrondClient executorS1 =
        ((0, Some (ErrClient ''rpc'')), executorS1)
   \<and> GetActionIDForSetStatusOnPendingTransfer failingElrondClient batchS1 = Inl (ErrClient ''rpc'')
   \<and> GetAndStoreActionIDForProposeSetStatusFromElrond 0 failingElrondClient executorS1 =
        ((0, Some (ErrClient ''rpc'')), executorS1)
   \<and> actionID executorS1 = 7
   \<and> GetActionIDForProposeTransfer elrondClientS1 batchS1 = Inr 41
   \<and> GetAndStoreActionIDForProposeTransferOnElrond 0 elrondClientS1 executorS1 =
        ((41, None), executorS1\<lparr>actionID := 41\<rparr>)"
proof -
  have stored: "batch executorS1 = Some batchS1"
    by (simp add: executorS1_def)
  have f1: "GetActionIDForProposeTransfer failingElrondClient batchS1 = Inl (ErrClient ''rpc'')"
    and f2: "GetActionIDForSetStatusOnPendingTransfer failingElrondClient batchS1 = Inl (ErrClient ''rpc'')"
    by (simp_all add: failingElrondClient_def)
  have ok: "GetActionIDForProposeTransfer elrondClientS1 batchS1 = Inr 41"
    by (simp add: elrondClientS1_def)
  have a: "actionID executorS1 = 7"
    by (simp add: executorS1_def)
  note failing = GetAndStoreActionID_error_keeps_state
    [of executorS1 batchS1 failingElrondClient "ErrClient ''rpc''" 0]
  note answering = GetAndStoreActionID_error_keeps_state
    [of executorS1 batchS1 elrondClientS1 _ 0 41]
  from failing stored f1 have w1:
    "GetAndStoreActionIDForProposeTransferOnElrond 0 failingElrondClient executorS1 =
        ((0, Some (ErrClient ''rpc'')), executorS1)" by blast
  from failing stored f2 have w2:
    "GetAndStoreActionIDForProposeSetStatusFromElrond 0 failingElrondClient executorS1 =
        ((0, Some (ErrClient ''rpc'')), executorS1)" by blast
  from answering stored ok have w3:
    "GetAndStoreActionIDForProposeTransferOnElrond 0 elrondClientS1 executorS1 =
        ((41, None), executorS1\<lparr>actionID := 41\<rparr>)" by blast
  from stored f1 f2 ok a w1 w2 w3 show ?thesis by blast
qed

section \<open>Operations on an executor without a batch\<close>

text \<open>
  Claim C8, evaluated on the executor \<^verbatim>\<open>createBridgeExecutor\<close> makes, which holds no
  batch. \<^verbatim>\<open>StoreBatchFromElrond\<close> of a \<^verbatim>\<open>nil\<close> batch returns the nil-batch error and
  leaves the executor as it is, and every operation that tests the stored batch
  returns the nil-batch error. \<^verbatim>\<open>ResolveNewDepositsStatuses\<close> has no such test and no
  error result: it calls \<^verbatim>\<open>ResolveNewDeposits\<close> on the \<^verbatim>\<open>nil\<close> batch.
\<close>

theorem nil_batch_operations:
  "StoreBatchFromElrond executor None = (Some ErrNilBatch, executor)
   \<and> VerifyLastDepositNonceExecutedOnEthereumBatch elrondClient createBridgeExecutor = Some ErrNilBatch
   \<and> GetAndStoreActionIDForProposeTransferOnElrond InvalidActionID elrondClient createBridgeExecutor =
        ((InvalidActionID, Some ErrNilBatch), createBridgeExecutor)
   \<and> GetAndStoreActionIDForProposeSetStatusFromElrond InvalidActionID elrondClient createBridgeExecutor =
        ((InvalidActionID, Some ErrNilBatch), createBridgeExecutor)
   \<and> WasTransferProposedOnElrond elrondClient createBridgeExecutor = (False, Some ErrNilBatch)
   \<and> WasSetStatusProposedOnElrond elrondClient createBridgeExecutor = (False, Some ErrNilBatch)
   \<and> ProposeTransferOnElrond elrondClient createBridgeExecutor = Some ErrNilBatch
   \<and> ProposeSetStatusOnElrond elrondClient createBridgeExecutor = Some ErrNilBatch
   \<and> GetBatchStatusesFromEthereum ethereumClient createBridgeExecutor = (None, Some ErrNilBatch)
   \<and> PerformActionOnElrond elrondClient createBridgeExecutor = Some ErrNilBatch
   \<and> SignTransferOnEthereum ethereumClient createBridgeExecutor =
        (Some ErrNilBatch, createBridgeExecutor)
   \<and> WasTransferPerformedOnEthereum ethereumClient createBridgeExecutor = (False, Some ErrNilBatch)
   \<and> PerformTransferOnEthereum ethereumClient createBridgeExecutor = Some ErrNilBatch
   \<and> batch createBridgeExecutor = None
   \<and> ResolveNewDepositsStatuses ResolveNewDeposits createBridgeExecutor numDeposits =
        Inl NilPointerDereference"
  by (simp add: createBridgeExecutor_def StoreBatchFromElrond_def
      VerifyLastDepositNonceExecutedOnEthereumBatch_def
      GetAndStoreActionIDForProposeTransferOnElrond_def
      GetAndStoreActionIDForProposeSetStatusFromElrond_def
      WasTransferProposedOnElrond_def WasSetStatusProposedOnElrond_def
      ProposeTransferOnElrond_def ProposeSetStatusOnElrond_def
      GetBatchStatusesFromEthereum_def PerformActionOnElrond_def
      SignTransferOnEthereum_def WasTransferPerformedOnEthereum_def
      PerformTransferOnEthereum_def ResolveNewDepositsStatuses_def)

section \<open>Step transitions\<close>



section \<open>Leader selection\<close>

lemma randomInt_in_range:
  assumes "0 < n" and "n < 2 ^ 64"
  shows "unat (randomInt hash seed (word_of_nat n :: u64)) < n"
proof -
  have n: "unat (word_of_nat n :: u64) = n"
    using assms(2) by (simp add: unsigned_of_nat take_bit_nat_eq_self)
  have "unat (hash seed mod (word_of_nat n :: u64)) = unat (hash seed) mod n"
    by (simp add: unat_mod n)
  then show ?thesis using assms(1) by (simp add: randomInt_def)
qed

lemma int64_div_nonneg:
  assumes "0 \<le> sint a" and "0 < sint b"
  shows "int64_div a b = word_of_int (sint a div sint b)"
  using assms by (simp add: int64_div_def signed_divide_int_def sgn_if)

text \<open>
  Claim C2, amended. For a non-empty list of \<open>N\<close> sorted public keys and an interval of
  more than zero whole seconds, \<^verbatim>\<open>MyTurnAsLeader\<close> returns true exactly when the key at
  index \<open>hash(seed) mod N\<close> equals the relayer's own key bytes, where \<open>seed\<close> is the
  quotient of the clock value by the whole seconds of the interval, truncated towards
  zero as Go divides, and read as 64 unsigned bits. The index is always inside the
  list. For a clock value that is not negative the seed is the floor of the quotient, as
  the claim has it. The result is a function of the key list, the clock value, the
  interval and the own key bytes (and of \<open>hash\<close>).
\<close>

theorem MyTurnAsLeader_index:
  "(SortedPublicKeys t \<noteq> [] \<and> length (SortedPublicKeys t) < 2 ^ 63 \<and>
      0 < sint (intervalForLeaderSeconds t) \<longrightarrow>
        MyTurnAsLeader hash t =
          Inr (SortedPublicKeys t !
                 unat (hash (leaderSeed t) mod word_of_nat (length (SortedPublicKeys t)))
               = addressBytes t) \<and>
        unat (hash (leaderSeed t) mod (word_of_nat (length (SortedPublicKeys t)) :: u64))
          < length (SortedPublicKeys t))
   \<and> leaderSeed t = word_of_int (sint (NowUnix t) sdiv sint (intervalForLeaderSeconds t))
   \<and> (0 \<le> sint (NowUnix t) \<and> 0 < sint (intervalForLeaderSeconds t) \<longrightarrow>
        leaderSeed t = floorSeed t)
   \<and> (SortedPublicKeys t \<noteq> [] \<and> length (SortedPublicKeys t) < 2 ^ 63 \<and>
      0 \<le> sint (NowUnix t) \<and> 0 < sint (intervalForLeaderSeconds t) \<longrightarrow>
        MyTurnAsLeader hash t =
          Inr (SortedPublicKeys t !
                 unat (hash (floorSeed t) mod word_of_nat (length (SortedPublicKeys t)))
               = addressBytes t))"
proof -
  let ?keys = "SortedPublicKeys t"
  let ?n = "word_of_nat (length ?keys) :: u64"
  have run: "MyTurnAsLeader hash t =
      Inr (?keys ! unat (hash (leaderSeed t) mod ?n) = addressBytes t) \<and>
      unat (hash (leaderSeed t) mod ?n) < length ?keys"
    if keys: "?keys \<noteq> []" and len: "length ?keys < 2 ^ 63"
      and ivl: "0 < sint (intervalForLeaderSeconds t)"
  proof -
    have "(2::nat) ^ 63 < 2 ^ 64" by simp
    with len have len64: "length ?keys < 2 ^ 64" by linarith
    from keys have pos: "0 < length ?keys" by simp
    have inrange: "unat (randomInt hash (leaderSeed t) ?n) < length ?keys"
      using randomInt_in_range [OF pos len64] .
    from ivl have nz: "intervalForLeaderSeconds t \<noteq> 0" by auto
    show ?thesis
      using keys nz inrange by (simp add: MyTurnAsLeader_def Let_def randomInt_def)
  qed
  have seed: "leaderSeed t = word_of_int (sint (NowUnix t) sdiv sint (intervalForLeaderSeconds t))"
    by (simp add: leaderSeed_def int64_div_def)
  have floor: "leaderSeed t = floorSeed t"
    if "0 \<le> sint (NowUnix t)" and "0 < sint (intervalForLeaderSeconds t)"
    using that by (simp add: leaderSeed_def floorSeed_def int64_div_nonneg)
  from run seed floor show ?thesis by metis
qed

theorem MyTurnAsLeader_index_witness:
  "SortedPublicKeys topologyAtEpoch \<noteq> []
   \<and> length (SortedPublicKeys topologyAtEpoch) < 2 ^ 63
   \<and> 0 \<le> sint (NowUnix topologyAtEpoch)
   \<and> 0 < sint (intervalForLeaderSeconds topologyAtEpoch)
   \<and> floorSeed topologyAtEpoch = 0
   \<and> MyTurnAsLeader id topologyAtEpoch = Inr True
   \<and> sint (NowUnix (topologyAtEpoch\<lparr>NowUnix := 7\<rparr>)) = 7
   \<and> floorSeed (topologyAtEpoch\<lparr>NowUnix := 7\<rparr>) = 3
   \<and> MyTurnAsLeader id (topologyAtEpoch\<lparr>NowUnix := 7\<rparr>) = Inr False
   \<and> MyTurnAsLeader id (topologyAtEpoch\<lparr>NowUnix := 7, addressBytes := [98, 98, 98]\<rparr>) = Inr True"
proof -
  have k: "SortedPublicKeys topologyAtEpoch \<noteq> []"
    and n: "length (SortedPublicKeys topologyAtEpoch) < 2 ^ 63"
    and c: "0 \<le> sint (NowUnix topologyAtEpoch)"
    and i: "0 < sint (intervalForLeaderSeconds topologyAtEpoch)"
    and f: "floorSeed topologyAtEpoch = 0"
    by (simp_all add: topologyAtEpoch_def floorSeed_def)
  from MyTurnAsLeader_index [of topologyAtEpoch id] k n c i
  have "MyTurnAsLeader id topologyAtEpoch =
      Inr (SortedPublicKeys topologyAtEpoch !
             unat (id (floorSeed topologyAtEpoch) mod
                   word_of_nat (length (SortedPublicKeys topologyAtEpoch)))
           = addressBytes topologyAtEpoch)"
    by blast
  then have at_epoch: "MyTurnAsLeader id topologyAtEpoch = Inr True"
    unfolding f by (simp add: topologyAtEpoch_def)
  let ?later = "topologyAtEpoch\<lparr>NowUnix := 7\<rparr>"
  let ?other = "topologyAtEpoch\<lparr>NowUnix := 7, addressBytes := [98, 98, 98]\<rparr>"
  have k7: "SortedPublicKeys ?later \<noteq> []" "SortedPublicKeys ?other \<noteq> []"
    and n7: "length (SortedPublicKeys ?later) < 2 ^ 63" "length (SortedPublicKeys ?other) < 2 ^ 63"
    and c7: "0 \<le> sint (NowUnix ?later)" "0 \<le> sint (NowUnix ?other)"
    and i7: "0 < sint (intervalForLeaderSeconds ?later)"
      "0 < sint (intervalForLeaderSeconds ?other)"
    and f7: "floorSeed ?later = 3" "floorSeed ?other = 3"
    and s7: "sint (NowUnix ?later) = 7"
    by (simp_all add: topologyAtEpoch_def floorSeed_def)
  have odd: "unat ((3 :: u64) mod 2) = 1"
    by simp
  from MyTurnAsLeader_index [of ?later id] k7 n7 c7 i7
  have "MyTurnAsLeader id ?later =
      Inr (SortedPublicKeys ?later !
             unat (id (floorSeed ?later) mod word_of_nat (length (SortedPublicKeys ?later)))
           = addressBytes ?later)"
    by blast
  then have later: "MyTurnAsLeader id ?later = Inr False"
    unfolding f7 using odd by (simp add: topologyAtEpoch_def)
  from MyTurnAsLeader_index [of ?other id] k7 n7 c7 i7
  have "MyTurnAsLeader id ?other =
      Inr (SortedPublicKeys ?other !
             unat (id (floorSeed ?other) mod word_of_nat (length (SortedPublicKeys ?other)))
           = addressBytes ?other)"
    by blast
  then have other: "MyTurnAsLeader id ?other = Inr True"
    unfolding f7 using odd by (simp add: topologyAtEpoch_def)
  from k n c i f at_epoch s7 f7(1) later other show ?thesis by blast
qed

text \<open>
  The claim as stated, with the floor for every clock value, fails one second before
  the epoch with a window of two seconds: the code divides \<open>-1\<close> by \<open>2\<close> to the seed
  \<open>0\<close>, the floor is \<open>-1\<close>. With the identity as \<open>hash\<close> the code elects the first
  key, the formula of the claim the second.
\<close>

theorem MyTurnAsLeader_floor_counterexample:
  "SortedPublicKeys topologyBeforeEpoch \<noteq> []
   \<and> 0 < sint (intervalForLeaderSeconds topologyBeforeEpoch)
   \<and> sint (NowUnix topologyBeforeEpoch) = - 1
   \<and> leaderSeed topologyBeforeEpoch = 0
   \<and> floorSeed topologyBeforeEpoch = - 1
   \<and> MyTurnAsLeader id topologyBeforeEpoch = Inr True
   \<and> (SortedPublicKeys topologyBeforeEpoch !
         unat (id (floorSeed topologyBeforeEpoch) mod
               word_of_nat (length (SortedPublicKeys topologyBeforeEpoch)))
       \<noteq> addressBytes topologyBeforeEpoch)"
proof -
  have seed: "leaderSeed topologyBeforeEpoch = 0"
    by (simp add: leaderSeed_def topologyBeforeEpoch_def topologyAtEpoch_def int64_div_def
        signed_divide_int_def)
  have floor: "floorSeed topologyBeforeEpoch = - 1"
    by (simp add: floorSeed_def topologyBeforeEpoch_def topologyAtEpoch_def)
  have run: "MyTurnAsLeader id topologyBeforeEpoch = Inr True"
    unfolding MyTurnAsLeader_def Let_def seed
    by (simp add: topologyBeforeEpoch_def topologyAtEpoch_def randomInt_def)
  have odd: "unat ((- 1 :: u64) mod 2) = 1"
    by simp
  have other: "SortedPublicKeys topologyBeforeEpoch !
         unat (id (floorSeed topologyBeforeEpoch) mod
               word_of_nat (length (SortedPublicKeys topologyBeforeEpoch)))
       \<noteq> addressBytes topologyBeforeEpoch"
    unfolding floor using odd by (simp add: topologyBeforeEpoch_def topologyAtEpoch_def)
  have "SortedPublicKeys topologyBeforeEpoch \<noteq> []"
    and "0 < sint (intervalForLeaderSeconds topologyBeforeEpoch)"
    and "sint (NowUnix topologyBeforeEpoch) = - 1"
    by (simp_all add: topologyBeforeEpoch_def topologyAtEpoch_def)
  with seed floor run other show ?thesis by blast
qed

section \<open>Received messages\<close>

text \<open>
  Claim C5. When the pre-processing of a received message fails (whatever the reason:
  it does not decode, its signature does not verify, its nonce is stale),
  \<^verbatim>\<open>ProcessReceivedMessage\<close> returns that error; when the declared public key is not
  whitelisted it returns the not-whitelisted error. In both cases it returns before the
  dispatch by topic: the signature holder, which is all a received message can change
  (the stored signatures, the joined senders and what the holder keeps per sender), is
  as it was, and nothing is sent. Whenever an error is returned the holder is
  unchanged, and the nil error is returned exactly for a pre-processed message of a
  whitelisted sender.
\<close>

theorem ProcessReceivedMessage_rejects_unchanged:
  "(preProcessMessage b message = Inl err \<longrightarrow>
      ProcessReceivedMessage b holder message = (Some err, holder, []))
   \<and> (preProcessMessage b message = Inr msg \<and> \<not> IsWhitelisted b (PublicKeyBytes msg) \<longrightarrow>
      ProcessReceivedMessage b holder message =
        (Some (ErrPeerNotWhitelisted (PublicKeyBytes msg)), holder, []))
   \<and> (fst (ProcessReceivedMessage b holder message) \<noteq> None \<longrightarrow>
      snd (ProcessReceivedMessage b holder message) = (holder, []))
   \<and> ((fst (ProcessReceivedMessage b holder message) = None) =
      (\<exists>m. preProcessMessage b message = Inr m \<and> IsWhitelisted b (PublicKeyBytes m)))"
  by (auto simp: ProcessReceivedMessage_def Let_def split: sum.splits prod.splits)

theorem ProcessReceivedMessage_rejects_unchanged_witness:
  "preProcessMessage exampleDeps (joinMessage\<lparr>Data := []\<rparr>) = Inl (ErrClient ''unmarshal'')
   \<and> ProcessReceivedMessage exampleDeps exampleHolder (joinMessage\<lparr>Data := []\<rparr>) =
       (Some (ErrClient ''unmarshal''), exampleHolder, [])
   \<and> preProcessMessage (exampleDeps\<lparr>IsWhitelisted := (\<lambda>pk. False)\<rparr>) joinMessage =
       Inr \<lparr>Payload = [106], PublicKeyBytes = [1], Signature = [], Nonce = 1\<rparr>
   \<and> ProcessReceivedMessage (exampleDeps\<lparr>IsWhitelisted := (\<lambda>pk. False)\<rparr>) exampleHolder
         joinMessage =
       (Some (ErrPeerNotWhitelisted [1]), exampleHolder, [])"
proof -
  let ?undecodable = "joinMessage\<lparr>Data := []\<rparr>"
  let ?closed = "exampleDeps\<lparr>IsWhitelisted := (\<lambda>pk. False)\<rparr>"
  let ?msg = "\<lparr>Payload = [106], PublicKeyBytes = [1], Signature = [], Nonce = 1\<rparr>"
  have p1: "preProcessMessage exampleDeps ?undecodable = Inl (ErrClient ''unmarshal'')"
    by (simp add: exampleDeps_def)
  have p2: "preProcessMessage ?closed joinMessage = Inr ?msg"
    by (simp add: exampleDeps_def joinMessage_def)
  have w2: "\<not> IsWhitelisted ?closed (PublicKeyBytes ?msg)"
    by simp
  from ProcessReceivedMessage_rejects_unchanged
    [of exampleDeps ?undecodable "ErrClient ''unmarshal''" exampleHolder] p1
  have r1: "ProcessReceivedMessage exampleDeps exampleHolder ?undecodable =
       (Some (ErrClient ''unmarshal''), exampleHolder, [])"
    by blast
  from ProcessReceivedMessage_rejects_unchanged [of ?closed joinMessage _ exampleHolder ?msg] p2 w2
  have "ProcessReceivedMessage ?closed exampleHolder joinMessage =
       (Some (ErrPeerNotWhitelisted (PublicKeyBytes ?msg)), exampleHolder, [])"
    by blast
  then have r2: "ProcessReceivedMessage ?closed exampleHolder joinMessage =
       (Some (ErrPeerNotWhitelisted [1]), exampleHolder, [])"
    by simp
  from p1 r1 p2 r2 show ?thesis by blast
qed

lemma broadcastLoop_sent:
  "broadcastLoop b peerId msgs =
     concat (map (\<lambda>m. case Marshal b m of Inl err \<Rightarrow> []
                        | Inr buff \<Rightarrow> [(signTopicName, buff, peerId)]) msgs)"
  by (induction msgs) (auto simp: sendSignedMessageToPeer_def split: sum.splits)

lemma broadcastLoop_all:
  "\<forall>m\<in>set msgs. Marshal b m = Inr (encode m) \<Longrightarrow>
   broadcastLoop b peerId msgs = map (\<lambda>m. (signTopicName, encode m, peerId)) msgs"
  by (induction msgs) (auto simp: sendSignedMessageToPeer_def)

text \<open>
  Claim C6. For a message that passed the pre-processing, comes from a whitelisted
  sender and arrived on the join topic, \<^verbatim>\<open>ProcessReceivedMessage\<close> records the sender
  (\<^verbatim>\<open>addJoinedMessage\<close>), then walks the signed messages the holder stores at that
  moment and sends each one, marshalled on its own, to the peer the message came from,
  on the sign topic and in the order of the store; it returns the nil error. A message
  whose marshalling fails is skipped: when every stored message marshals, as with the
  JSON marshalizer of \<^verbatim>\<open>NewBroadcaster\<close>, every stored message is sent. An error of
  the messenger does not stop the loop.
\<close>

theorem join_sends_stored_signatures:
  "preProcessMessage b message = Inr msg \<and> IsWhitelisted b (PublicKeyBytes msg) \<and>
   Topic message = joinTopicName \<longrightarrow>
     ProcessReceivedMessage b holder message =
       (None, addJoinedMessage b holder msg,
        concat (map (\<lambda>m. case Marshal b m of Inl err \<Rightarrow> []
                          | Inr buff \<Rightarrow> [(signTopicName, buff, Peer message)])
                    (storedSignedMessages b (addJoinedMessage b holder msg))))
     \<and> ((\<forall>m\<in>set (storedSignedMessages b (addJoinedMessage b holder msg)).
            Marshal b m = Inr (encode m)) \<longrightarrow>
         ProcessReceivedMessage b holder message =
           (None, addJoinedMessage b holder msg,
            map (\<lambda>m. (signTopicName, encode m, Peer message))
                (storedSignedMessages b (addJoinedMessage b holder msg))))"
proof (intro impI, elim conjE)
  assume pre: "preProcessMessage b message = Inr msg"
    and white: "IsWhitelisted b (PublicKeyBytes msg)"
    and topic: "Topic message = joinTopicName"
  let ?holder' = "addJoinedMessage b holder msg"
  have run: "ProcessReceivedMessage b holder message =
      (None, ?holder', broadcastLoop b (Peer message) (storedSignedMessages b ?holder'))"
    using pre white topic
    by (simp add: ProcessReceivedMessage_def broadcastCurrentSignatures_def Let_def)
  show "ProcessReceivedMessage b holder message =
       (None, ?holder',
        concat (map (\<lambda>m. case Marshal b m of Inl err \<Rightarrow> []
                          | Inr buff \<Rightarrow> [(signTopicName, buff, Peer message)])
                    (storedSignedMessages b ?holder')))
     \<and> ((\<forall>m\<in>set (storedSignedMessages b ?holder'). Marshal b m = Inr (encode m)) \<longrightarrow>
         ProcessReceivedMessage b holder message =
           (None, ?holder',
            map (\<lambda>m. (signTopicName, encode m, Peer message)) (storedSignedMessages b ?holder')))"
    unfolding run
    using broadcastLoop_sent [of b "Peer message" "storedSignedMessages b ?holder'"]
      broadcastLoop_all [of "storedSignedMessages b ?holder'" b encode "Peer message"]
    by simp
qed

theorem join_sends_stored_signatures_witness:
  "preProcessMessage exampleDeps joinMessage =
     Inr \<lparr>Payload = [106], PublicKeyBytes = [1], Signature = [], Nonce = 1\<rparr>
   \<and> IsWhitelisted exampleDeps [1]
   \<and> Topic joinMessage = joinTopicName
   \<and> storedSignedMessages exampleDeps exampleHolder = [storedSignature 7, storedSignature 8]
   \<and> ProcessReceivedMessage exampleDeps exampleHolder joinMessage =
       (None,
        ([\<lparr>Payload = [106], PublicKeyBytes = [1], Signature = [], Nonce = 1\<rparr>],
         [storedSignature 7, storedSignature 8]),
        [(''sign/1'', [2, 7], ''late peer''), (''sign/1'', [2, 8], ''late peer'')])"
proof -
  let ?msg = "\<lparr>Payload = [106], PublicKeyBytes = [1], Signature = [], Nonce = 1\<rparr>"
  have pre: "preProcessMessage exampleDeps joinMessage = Inr ?msg"
    by (simp add: exampleDeps_def joinMessage_def)
  have white: "IsWhitelisted exampleDeps (PublicKeyBytes ?msg)"
    by (simp add: exampleDeps_def)
  have topic: "Topic joinMessage = joinTopicName"
    by (simp add: joinMessage_def joinTopicName_def)
  have joined: "addJoinedMessage exampleDeps exampleHolder ?msg =
      ([?msg], [storedSignature 7, storedSignature 8])"
    by (simp add: exampleDeps_def exampleHolder_def)
  have stored: "storedSignedMessages exampleDeps ([?msg], [storedSignature 7, storedSignature 8]) =
      [storedSignature 7, storedSignature 8]"
    and stored0: "storedSignedMessages exampleDeps exampleHolder =
      [storedSignature 7, storedSignature 8]"
    by (simp_all add: exampleDeps_def exampleHolder_def)
  have marshal: "\<forall>m\<in>set (storedSignedMessages exampleDeps
       (addJoinedMessage exampleDeps exampleHolder ?msg)).
       Marshal exampleDeps m = Inr (exampleMarshal m)"
    by (simp add: exampleDeps_def)
  from join_sends_stored_signatures [of exampleDeps joinMessage ?msg exampleHolder exampleMarshal]
    pre white topic marshal
  have "ProcessReceivedMessage exampleDeps exampleHolder joinMessage =
      (None, addJoinedMessage exampleDeps exampleHolder ?msg,
       map (\<lambda>m. (signTopicName, exampleMarshal m, Peer joinMessage))
           (storedSignedMessages exampleDeps (addJoinedMessage exampleDeps exampleHolder ?msg)))"
    by blast
  then have run: "ProcessReceivedMessage exampleDeps exampleHolder joinMessage =
      (None, ([?msg], [storedSignature 7, storedSignature 8]),
       [(''sign/1'', [2, 7], ''late peer''), (''sign/1'', [2, 8], ''late peer'')])"
    unfolding joined stored
    by (simp add: signTopicName_def exampleMarshal_def storedSignature_def joinMessage_def)
  have white': "IsWhitelisted exampleDeps [1]"
    using white by simp
  from pre white' topic stored0 run show ?thesis by blast
qed

section \<open>Argument lists\<close>

lemma upt_shift: "map f [0..<Suc n] = f 0 # map (\<lambda>i. f (Suc i)) [0..<n]"
  by (simp add: map_upt_Suc del: upt_Suc)

lemma validDeposit_grow:
  "validDeposit h dt \<Longrightarrow> validDeposit (h\<lparr>ints := ints h @ vs\<rparr>) dt"
  by (auto simp: validDeposit_def validSlice_def split: option.splits slice.splits)

lemma extractLoop_result:
  "list_all (validDeposit h) ds \<Longrightarrow>
   extractLoop h ds arg =
     Inr (h\<lparr>ints := ints h @
                concat (map (\<lambda>dt. [ints h ! the (Amount dt), uint (Nonce dt)]) ds)\<rparr>,
          \<lparr>Tokens = Tokens arg @
             map (\<lambda>dt. BytesToAddress (sliceBytes h (ConvertedTokenBytes dt))) ds,
           Recipients = Recipients arg @
             map (\<lambda>dt. BytesToAddress (sliceBytes h (ToBytes dt))) ds,
           TokenBytes = TokenBytes arg @ map ConvertedTokenBytes ds,
           Amounts = Amounts arg @ map (\<lambda>i. length (ints h) + 2 * i) [0..<length ds],
           Nonces = Nonces arg @ map (\<lambda>i. length (ints h) + 2 * i + 1) [0..<length ds]\<rparr>)"
proof (induction ds arbitrary: h arg)
  case Nil
  then show ?case by simp
next
  case (Cons dt ds)
  from Cons.prems obtain a where a: "Amount dt = Some a" "a < length (ints h)"
    by (auto simp: validDeposit_def split: option.splits)
  let ?h2 = "h\<lparr>ints := ints h @ [ints h ! a, uint (Nonce dt)]\<rparr>"
  let ?arg5 = "arg\<lparr>Recipients := Recipients arg @ [BytesToAddress (sliceBytes h (ToBytes dt))],
      Tokens := Tokens arg @ [BytesToAddress (sliceBytes h (ConvertedTokenBytes dt))],
      Amounts := Amounts arg @ [length (ints h)],
      Nonces := Nonces arg @ [Suc (length (ints h))],
      TokenBytes := TokenBytes arg @ [ConvertedTokenBytes dt]\<rparr>"
  have step: "extractLoop h (dt # ds) arg = extractLoop ?h2 ds ?arg5"
    using a by (simp add: Let_def newInt_def)
  have valid: "list_all (validDeposit ?h2) ds"
    using Cons.prems validDeposit_grow [of h _ "[ints h ! a, uint (Nonce dt)]"]
    by (auto simp: list_all_iff)
  have same_slices: "\<And>s. sliceBytes ?h2 s = sliceBytes h s"
    by (simp add: sliceBytes_def split: slice.splits)
  have same_ints: "map (\<lambda>d. [ints ?h2 ! the (Amount d), uint (Nonce d)]) ds =
      map (\<lambda>d. [ints h ! the (Amount d), uint (Nonce d)]) ds"
  proof (rule map_cong [OF refl])
    fix d assume "d \<in> set ds"
    with Cons.prems have "validDeposit h d" by (auto simp: list_all_iff)
    then obtain a' where "Amount d = Some a'" "a' < length (ints h)"
      by (auto simp: validDeposit_def split: option.splits)
    then show "[ints ?h2 ! the (Amount d), uint (Nonce d)] =
        [ints h ! the (Amount d), uint (Nonce d)]"
      by (simp add: nth_append)
  qed
  have amounts: "map (\<lambda>i. length (ints h) + 2 * i) [0..<Suc (length ds)] =
      length (ints h) # map (\<lambda>i. length (ints ?h2) + 2 * i) [0..<length ds]"
    by (subst upt_shift) simp
  have nonces: "map (\<lambda>i. length (ints h) + 2 * i + 1) [0..<Suc (length ds)] =
      Suc (length (ints h)) # map (\<lambda>i. length (ints ?h2) + 2 * i + 1) [0..<length ds]"
    by (subst upt_shift) simp
  show ?case
    unfolding step Cons.IH [OF valid] same_slices same_ints
    using a amounts nonces by simp
qed


lemma pairs_length: "length (concat (map (\<lambda>d. [f d, g d]) ds)) = 2 * length ds"
  by (induction ds) auto

lemma pairs_nth:
  "i < length ds \<Longrightarrow>
   concat (map (\<lambda>d. [f d, g d]) ds) ! (2 * i) = f (ds ! i) \<and>
   concat (map (\<lambda>d. [f d, g d]) ds) ! (2 * i + 1) = g (ds ! i)"
proof (induction ds arbitrary: i)
  case Nil
  then show ?case by simp
next
  case (Cons d ds)
  show ?case
  proof (cases i)
    case 0
    then show ?thesis by simp
  next
    case (Suc j)
    with Cons.prems have "j < length ds" by simp
    from Cons.IH [OF this] show ?thesis using Suc by simp
  qed
qed

lemma depositView_grow:
  "validDeposit h dt \<Longrightarrow> depositView (h\<lparr>ints := ints h @ vs\<rparr>) dt = depositView h dt"
  by (auto simp: depositView_def validDeposit_def sliceBytes_def nth_append
      split: option.splits slice.splits)

lemma depositView_setInt_fresh:
  "validDeposit h dt \<Longrightarrow> length (ints h) \<le> a \<Longrightarrow>
   depositView (setInt (h\<lparr>ints := ints h @ vs\<rparr>) a v) dt = depositView h dt"
  by (auto simp: depositView_def validDeposit_def sliceBytes_def setInt_def nth_append
      split: option.splits slice.splits)

lemma fresh_addresses_distinct:
  "distinct (map (\<lambda>i. base + 2 * i) [0..<n] @ map (\<lambda>i. base + 2 * i + 1) [0..<n])"
proof -
  have "distinct (map (\<lambda>i. base + 2 * i) [0..<n])"
    by (simp add: distinct_map inj_on_def)
  moreover have "distinct (map (\<lambda>i. base + 2 * i + 1) [0..<n])"
    by (simp add: distinct_map inj_on_def)
  moreover have "set (map (\<lambda>i. base + 2 * i) [0..<n]) \<inter>
      set (map (\<lambda>i. base + 2 * i + 1) [0..<n]) = {}"
  proof -
    have "base + 2 * i \<noteq> base + 2 * j + 1" for i j :: nat
      by presburger
    then show ?thesis by auto
  qed
  ultimately show ?thesis by simp
qed

text \<open>
  Claim C10, amended. For every batch a program can hold (not \<^verbatim>\<open>nil\<close>, every deposit
  with an amount), \<^verbatim>\<open>ExtractList\<close> returns the nil error and five lists as long as the
  deposits and in their order: \<open>Recipients[i]\<close> is the address made of the recipient
  bytes of deposit \<open>i\<close>, \<open>Tokens[i]\<close> the address made of its converted token bytes,
  \<open>Nonces[i]\<close> a new integer holding its nonce, \<open>Amounts[i]\<close> a new integer equal to
  its amount, and \<open>ConvertedTokenBytes[i]\<close> the byte slice of the deposit itself. The new
  integers lie at addresses the heap did not have before, all different. The batch reads
  the same after the call, and assigning any of the new integers later does not change
  what the batch reads.
\<close>

theorem ExtractList_lists:
  assumes "validBatch h b"
  shows "\<exists>h' arg.
      ExtractList h (Some b) = Inr (h', arg, None)
      \<and> length (Recipients arg) = length (Deposits b)
      \<and> length (Tokens arg) = length (Deposits b)
      \<and> length (TokenBytes arg) = length (Deposits b)
      \<and> length (Amounts arg) = length (Deposits b)
      \<and> length (Nonces arg) = length (Deposits b)
      \<and> (\<forall>i<length (Deposits b).
            Recipients arg ! i = BytesToAddress (sliceBytes h (ToBytes (Deposits b ! i)))
            \<and> Tokens arg ! i =
                BytesToAddress (sliceBytes h (ConvertedTokenBytes (Deposits b ! i)))
            \<and> TokenBytes arg ! i = ConvertedTokenBytes (Deposits b ! i)
            \<and> Nonces arg ! i < length (ints h')
            \<and> ints h' ! (Nonces arg ! i) = uint (Nonce (Deposits b ! i))
            \<and> Amounts arg ! i < length (ints h')
            \<and> Amount (Deposits b ! i) \<noteq> None
            \<and> ints h' ! (Amounts arg ! i) = ints h ! the (Amount (Deposits b ! i))
            \<and> length (ints h) \<le> Amounts arg ! i
            \<and> length (ints h) \<le> Nonces arg ! i)
      \<and> distinct (Amounts arg @ Nonces arg)
      \<and> batchView h' b = batchView h b
      \<and> (\<forall>a v. a \<in> set (Amounts arg @ Nonces arg) \<longrightarrow>
            batchView (setInt h' a v) b = batchView h b)"
proof -
  let ?ds = "Deposits b"
  let ?new = "concat (map (\<lambda>dt. [ints h ! the (Amount dt), uint (Nonce dt)]) ?ds)"
  let ?h' = "h\<lparr>ints := ints h @ ?new\<rparr>"
  let ?arg = "\<lparr>Tokens = map (\<lambda>dt. BytesToAddress (sliceBytes h (ConvertedTokenBytes dt))) ?ds,
      Recipients = map (\<lambda>dt. BytesToAddress (sliceBytes h (ToBytes dt))) ?ds,
      TokenBytes = map ConvertedTokenBytes ?ds,
      Amounts = map (\<lambda>i. length (ints h) + 2 * i) [0..<length ?ds],
      Nonces = map (\<lambda>i. length (ints h) + 2 * i + 1) [0..<length ?ds]\<rparr>"
  from assms have valid: "list_all (validDeposit h) ?ds"
    by (simp add: validBatch_def)
  have run: "ExtractList h (Some b) = Inr (?h', ?arg, None)"
    using extractLoop_result [OF valid,
        of "\<lparr>Tokens = [], Recipients = [], TokenBytes = [], Amounts = [], Nonces = []\<rparr>"]
    by (simp add: ExtractList_def)
  have lengths: "length (Recipients ?arg) = length ?ds" "length (Tokens ?arg) = length ?ds"
    "length (TokenBytes ?arg) = length ?ds" "length (Amounts ?arg) = length ?ds"
    "length (Nonces ?arg) = length ?ds"
    by simp_all
  have elements: "Recipients ?arg ! i = BytesToAddress (sliceBytes h (ToBytes (?ds ! i)))
        \<and> Tokens ?arg ! i = BytesToAddress (sliceBytes h (ConvertedTokenBytes (?ds ! i)))
        \<and> TokenBytes ?arg ! i = ConvertedTokenBytes (?ds ! i)
        \<and> Nonces ?arg ! i < length (ints ?h')
        \<and> ints ?h' ! (Nonces ?arg ! i) = uint (Nonce (?ds ! i))
        \<and> Amounts ?arg ! i < length (ints ?h')
        \<and> Amount (?ds ! i) \<noteq> None
        \<and> ints ?h' ! (Amounts ?arg ! i) = ints h ! the (Amount (?ds ! i))
        \<and> length (ints h) \<le> Amounts ?arg ! i
        \<and> length (ints h) \<le> Nonces ?arg ! i"
    if i: "i < length ?ds" for i
  proof -
    from valid i have "validDeposit h (?ds ! i)"
      by (simp add: list_all_length)
    then have amount: "Amount (?ds ! i) \<noteq> None"
      by (auto simp: validDeposit_def split: option.splits)
    have len: "length ?new = 2 * length ?ds"
      by (rule pairs_length)
    note nth = pairs_nth [OF i, of "\<lambda>dt. ints h ! the (Amount dt)" "\<lambda>dt. uint (Nonce dt)"]
    have a: "ints ?h' ! (length (ints h) + 2 * i) = ints h ! the (Amount (?ds ! i))"
      using nth by (simp add: nth_append)
    have n: "ints ?h' ! (length (ints h) + 2 * i + 1) = uint (Nonce (?ds ! i))"
    proof -
      have "(ints h @ ?new) ! (length (ints h) + (2 * i + 1)) = ?new ! (2 * i + 1)"
        by (rule nth_append_length_plus)
      with nth show ?thesis by (simp add: add.assoc)
    qed
    show ?thesis
      using i amount a n len by simp
  qed
  have distinct: "distinct (Amounts ?arg @ Nonces ?arg)"
    using fresh_addresses_distinct [of "length (ints h)" "length ?ds"] by simp
  have unmodified: "batchView ?h' b = batchView h b"
    using valid depositView_grow [of h _ ?new]
    by (simp add: batchView_def list_all_iff)
  have isolated: "batchView (setInt ?h' a v) b = batchView h b"
    if "a \<in> set (Amounts ?arg @ Nonces ?arg)" for a v
  proof -
    from that have "length (ints h) \<le> a" by auto
    then show ?thesis
      using valid depositView_setInt_fresh [of h _ a ?new v]
      by (simp add: batchView_def list_all_iff)
  qed
  show ?thesis
    using run lengths elements distinct unmodified isolated
    by (intro exI [of _ ?h'] exI [of _ ?arg]) blast
qed


lemma ExtractList_example:
  "ExtractList heapS (Some batchOnHeap) =
     Inr (\<lparr>ints = [1000, 1000, 2], arrays = [[1, 2, 3], [9]]\<rparr>,
          \<lparr>Tokens = [BytesToAddress [1, 2, 3]], Recipients = [BytesToAddress [9]],
           TokenBytes = [Slice 0], Amounts = [1], Nonces = [2]\<rparr>,
          None)"
  by (simp add: ExtractList_def heapS_def batchOnHeap_def newInt_def sliceBytes_def Let_def)

lemma ExtractList_example_two:
  "ExtractList heapS (Some batchOfTwo) =
     Inr (\<lparr>ints = [1000, 1000, 2, 1000, 3], arrays = [[1, 2, 3], [9]]\<rparr>,
          \<lparr>Tokens = [BytesToAddress [1, 2, 3], BytesToAddress [1, 2, 3]],
           Recipients = [BytesToAddress [9], BytesToAddress []],
           TokenBytes = [Slice 0, Slice 0], Amounts = [1, 3], Nonces = [2, 4]\<rparr>,
          None)"
  by (simp add: ExtractList_def heapS_def batchOfTwo_def newInt_def sliceBytes_def Let_def)

theorem ExtractList_lists_witness:
  "validBatch heapS batchOfTwo
   \<and> ExtractList heapS (Some batchOfTwo) =
       Inr (\<lparr>ints = [1000, 1000, 2, 1000, 3], arrays = [[1, 2, 3], [9]]\<rparr>,
            \<lparr>Tokens = [BytesToAddress [1, 2, 3], BytesToAddress [1, 2, 3]],
             Recipients = [BytesToAddress [9], BytesToAddress []],
             TokenBytes = [Slice 0, Slice 0], Amounts = [1, 3], Nonces = [2, 4]\<rparr>,
            None)
   \<and> batchView \<lparr>ints = [1000, 1000, 2, 1000, 3], arrays = [[1, 2, 3], [9]]\<rparr> batchOfTwo =
       batchView heapS batchOfTwo
   \<and> batchView (setInt \<lparr>ints = [1000, 1000, 2, 1000, 3], arrays = [[1, 2, 3], [9]]\<rparr> 3 0)
         batchOfTwo =
       batchView heapS batchOfTwo"
proof -
  have valid: "validBatch heapS batchOfTwo"
    by (simp add: validBatch_def validDeposit_def validSlice_def heapS_def batchOfTwo_def)
  from ExtractList_lists [OF valid] obtain h' arg where
    run: "ExtractList heapS (Some batchOfTwo) = Inr (h', arg, None)"
    and unmodified: "batchView h' batchOfTwo = batchView heapS batchOfTwo"
    and isolated: "\<forall>a v. a \<in> set (Amounts arg @ Nonces arg) \<longrightarrow>
          batchView (setInt h' a v) batchOfTwo = batchView heapS batchOfTwo"
    by blast
  from run ExtractList_example_two
  have h': "h' = \<lparr>ints = [1000, 1000, 2, 1000, 3], arrays = [[1, 2, 3], [9]]\<rparr>"
    and arg: "Amounts arg = [1, 3]"
    by auto
  from isolated arg have "batchView (setInt h' 3 0) batchOfTwo = batchView heapS batchOfTwo"
    by simp
  with valid ExtractList_example_two unmodified show ?thesis
    unfolding h' by blast
qed

text \<open>
  The claim as stated, that no later mutation of the result can alter the batch, fails
  through \<open>ConvertedTokenBytes\<close>: the result holds the deposit's own slice, so writing a
  byte through it changes the converted token bytes the batch reads.
\<close>

theorem ExtractList_shares_token_bytes_counterexample:
  "ExtractList heapS (Some batchOnHeap) =
       Inr (\<lparr>ints = [1000, 1000, 2], arrays = [[1, 2, 3], [9]]\<rparr>,
            \<lparr>Tokens = [BytesToAddress [1, 2, 3]], Recipients = [BytesToAddress [9]],
             TokenBytes = [Slice 0], Amounts = [1], Nonces = [2]\<rparr>,
            None)
   \<and> setByte \<lparr>ints = [1000, 1000, 2], arrays = [[1, 2, 3], [9]]\<rparr> (Slice 0) 0 255 =
       Inr \<lparr>ints = [1000, 1000, 2], arrays = [[255, 2, 3], [9]]\<rparr>
   \<and> batchView heapS batchOnHeap = (12345, [(2, [9], [1, 2, 3], Some 1000)], [])
   \<and> batchView \<lparr>ints = [1000, 1000, 2], arrays = [[255, 2, 3], [9]]\<rparr> batchOnHeap =
       (12345, [(2, [9], [255, 2, 3], Some 1000)], [])
   \<and> batchView \<lparr>ints = [1000, 1000, 2], arrays = [[255, 2, 3], [9]]\<rparr> batchOnHeap \<noteq>
       batchView heapS batchOnHeap"
proof -
  have written: "setByte \<lparr>ints = [1000, 1000, 2], arrays = [[1, 2, 3], [9]]\<rparr> (Slice 0) 0 255 =
       Inr \<lparr>ints = [1000, 1000, 2], arrays = [[255, 2, 3], [9]]\<rparr>"
    by (simp add: setByte_def)
  have seen_before: "batchView heapS batchOnHeap = (12345, [(2, [9], [1, 2, 3], Some 1000)], [])"
    by (simp add: batchView_def depositView_def sliceBytes_def heapS_def batchOnHeap_def)
  have seen_after: "batchView \<lparr>ints = [1000, 1000, 2], arrays = [[255, 2, 3], [9]]\<rparr> batchOnHeap =
       (12345, [(2, [9], [255, 2, 3], Some 1000)], [])"
    by (simp add: batchView_def depositView_def sliceBytes_def batchOnHeap_def)
  have differ: "batchView \<lparr>ints = [1000, 1000, 2], arrays = [[255, 2, 3], [9]]\<rparr> batchOnHeap \<noteq>
       batchView heapS batchOnHeap"
    unfolding seen_before seen_after by simp
  from ExtractList_example written seen_before seen_after differ show ?thesis by blast
qed

section \<open>Propose states of the monitor\<close>








end
